theory Spec2Isabelle
  imports Complex_Main
begin

section \<open>Scalars\<close>

text \<open>
  The tensors of the program hold floating-point numbers. A scalar is modelled as an exact
  real number or one of the three non-finite values of IEEE 754. Rounding, overflow to
  infinity and the sign of zero are not modelled: a finite result is the exact one, and a
  zero divisor counts as positive zero.
\<close>

datatype fl = Fin real | PInf | NInf | NaN

fun fneg :: "fl \<Rightarrow> fl" where
  "fneg (Fin x) = Fin (- x)"
| "fneg PInf = NInf"
| "fneg NInf = PInf"
| "fneg NaN = NaN"

fun fadd :: "fl \<Rightarrow> fl \<Rightarrow> fl" where
  "fadd (Fin x) (Fin y) = Fin (x + y)"
| "fadd NaN b = NaN"
| "fadd a NaN = NaN"
| "fadd PInf NInf = NaN"
| "fadd NInf PInf = NaN"
| "fadd PInf b = PInf"
| "fadd a PInf = PInf"
| "fadd NInf b = NInf"
| "fadd a NInf = NInf"

definition fsub :: "fl \<Rightarrow> fl \<Rightarrow> fl" where
  "fsub a b = fadd a (fneg b)"

fun fmul :: "fl \<Rightarrow> fl \<Rightarrow> fl" where
  "fmul (Fin x) (Fin y) = Fin (x * y)"
| "fmul NaN b = NaN"
| "fmul a NaN = NaN"
| "fmul PInf (Fin y) = (if y = 0 then NaN else if 0 < y then PInf else NInf)"
| "fmul NInf (Fin y) = (if y = 0 then NaN else if 0 < y then NInf else PInf)"
| "fmul (Fin x) PInf = (if x = 0 then NaN else if 0 < x then PInf else NInf)"
| "fmul (Fin x) NInf = (if x = 0 then NaN else if 0 < x then NInf else PInf)"
| "fmul PInf PInf = PInf"
| "fmul PInf NInf = NInf"
| "fmul NInf PInf = NInf"
| "fmul NInf NInf = PInf"

fun fdiv :: "fl \<Rightarrow> fl \<Rightarrow> fl" where
  "fdiv (Fin x) (Fin y) =
     (if y = 0 then (if x = 0 then NaN else if 0 < x then PInf else NInf)
      else Fin (x / y))"
| "fdiv NaN b = NaN"
| "fdiv a NaN = NaN"
| "fdiv (Fin x) PInf = Fin 0"
| "fdiv (Fin x) NInf = Fin 0"
| "fdiv PInf (Fin y) = (if 0 \<le> y then PInf else NInf)"
| "fdiv NInf (Fin y) = (if 0 \<le> y then NInf else PInf)"
| "fdiv PInf PInf = NaN"
| "fdiv PInf NInf = NaN"
| "fdiv NInf PInf = NaN"
| "fdiv NInf NInf = NaN"

fun fabs :: "fl \<Rightarrow> fl" where
  "fabs (Fin x) = Fin \<bar>x\<bar>"
| "fabs PInf = PInf"
| "fabs NInf = PInf"
| "fabs NaN = NaN"

fun is_finite :: "fl \<Rightarrow> bool" where
  "is_finite (Fin x) = True"
| "is_finite PInf = False"
| "is_finite NInf = False"
| "is_finite NaN = False"

definition fsum :: "fl list \<Rightarrow> fl" where
  "fsum xs = foldl fadd (Fin 0) xs"

section \<open>Errors\<close>

text \<open>
  The exceptions the program can raise. \<open>NotImplementedError\<close> and \<open>ValueError\<close> are
  raised by the repository's own code, \<open>InvalidArgumentError\<close> stands for every failure
  of a TensorFlow operation (an index out of range, shapes that do not broadcast), and
  \<open>AttributeError\<close> for reading an attribute that was never set.
\<close>

datatype error = NotImplementedError | ValueError | InvalidArgumentError | AttributeError

definition bindE :: "error + 'a \<Rightarrow> ('a \<Rightarrow> error + 'b) \<Rightarrow> error + 'b" where
  "bindE m f = (case m of Inl e \<Rightarrow> Inl e | Inr v \<Rightarrow> f v)"

section \<open>Tensors\<close>

text \<open>
  A tensor is its shape and the value at every index; only the values at the indices
  inside the shape mean anything. The operations below are the TensorFlow operations the
  source uses, each with the failure TensorFlow raises in eager mode.
\<close>

datatype 'a tensor = Tensor (shape: "nat list") (get: "nat list \<Rightarrow> 'a")

definition valid_idx :: "nat list \<Rightarrow> nat list \<Rightarrow> bool" where
  "valid_idx idx shp = list_all2 (<) idx shp"

definition scalar :: "'a \<Rightarrow> 'a tensor" where
  "scalar v = Tensor [] (\<lambda>idx. v)"

text \<open>\<open>t[..., i]\<close>\<close>
definition index_last :: "'a tensor \<Rightarrow> nat \<Rightarrow> error + 'a tensor" where
  "index_last t i =
     (if shape t = [] \<or> \<not> i < last (shape t) then Inl InvalidArgumentError
      else Inr (Tensor (butlast (shape t)) (\<lambda>idx. get t (idx @ [i]))))"

text \<open>\<open>t[i]\<close>\<close>
definition index_first :: "'a tensor \<Rightarrow> nat \<Rightarrow> error + 'a tensor" where
  "index_first t i =
     (case shape t of
        [] \<Rightarrow> Inl InvalidArgumentError
      | n # s \<Rightarrow> if i < n then Inr (Tensor s (\<lambda>idx. get t (i # idx)))
                 else Inl InvalidArgumentError)"

text \<open>\<open>t[..., tf.newaxis]\<close>\<close>
definition newaxis_last :: "'a tensor \<Rightarrow> 'a tensor" where
  "newaxis_last t = Tensor (shape t @ [1]) (\<lambda>idx. get t (butlast idx))"

text \<open>\<open>t[tf.newaxis, ...]\<close>\<close>
definition newaxis_first :: "'a tensor \<Rightarrow> 'a tensor" where
  "newaxis_first t = Tensor (1 # shape t) (\<lambda>idx. get t (tl idx))"

text \<open>\<open>t[..., tf.newaxis, :]\<close>\<close>
definition newaxis_penult :: "'a tensor \<Rightarrow> error + 'a tensor" where
  "newaxis_penult t =
     (if shape t = [] then Inl InvalidArgumentError
      else Inr (Tensor (butlast (shape t) @ [1, last (shape t)])
                  (\<lambda>idx. get t (butlast (butlast idx) @ [last idx]))))"

text \<open>\<open>t[..., tf.newaxis, :, :]\<close>\<close>
definition newaxis_antepenult :: "'a tensor \<Rightarrow> error + 'a tensor" where
  "newaxis_antepenult t =
     (if length (shape t) < 2 then Inl InvalidArgumentError
      else Inr (Tensor (take (length (shape t) - 2) (shape t) @
                        1 # drop (length (shape t) - 2) (shape t))
                  (\<lambda>idx. get t (take (length idx - 3) idx @ drop (length idx - 2) idx))))"

text \<open>
  Broadcasting aligns the two shapes at their last axes; two extents are compatible
  when they are equal or one of them is 1.
\<close>

fun bshape_rev :: "nat list \<Rightarrow> nat list \<Rightarrow> nat list option" where
  "bshape_rev [] ys = Some ys"
| "bshape_rev xs [] = Some xs"
| "bshape_rev (x # xs) (y # ys) =
     (if x = y \<or> y = 1 then map_option ((#) x) (bshape_rev xs ys)
      else if x = 1 then map_option ((#) y) (bshape_rev xs ys)
      else None)"

definition broadcast_shape :: "nat list \<Rightarrow> nat list \<Rightarrow> nat list option" where
  "broadcast_shape a b = map_option rev (bshape_rev (rev a) (rev b))"

text \<open>The index into an operand of shape \<open>s\<close> that the index \<open>idx\<close> of the result reads.\<close>
definition bidx :: "nat list \<Rightarrow> nat list \<Rightarrow> nat list" where
  "bidx s idx = map2 (\<lambda>d i. if d = 1 then 0 else i) s (drop (length idx - length s) idx)"

definition binop :: "('a \<Rightarrow> 'b \<Rightarrow> 'c) \<Rightarrow> 'a tensor \<Rightarrow> 'b tensor \<Rightarrow> error + 'c tensor" where
  "binop f a b =
     (case broadcast_shape (shape a) (shape b) of
        None \<Rightarrow> Inl InvalidArgumentError
      | Some s \<Rightarrow> Inr (Tensor s (\<lambda>idx. f (get a (bidx (shape a) idx))
                                          (get b (bidx (shape b) idx)))))"

definition tadd :: "fl tensor \<Rightarrow> fl tensor \<Rightarrow> error + fl tensor" where
  "tadd = binop fadd"

definition tsub :: "fl tensor \<Rightarrow> fl tensor \<Rightarrow> error + fl tensor" where
  "tsub = binop fsub"

definition tmul :: "fl tensor \<Rightarrow> fl tensor \<Rightarrow> error + fl tensor" where
  "tmul = binop fmul"

definition tdiv :: "fl tensor \<Rightarrow> fl tensor \<Rightarrow> error + fl tensor" where
  "tdiv = binop fdiv"

definition tneg :: "fl tensor \<Rightarrow> fl tensor" where
  "tneg t = Tensor (shape t) (\<lambda>idx. fneg (get t idx))"

text \<open>\<open>tf.reduce_sum(t, axis=-1)\<close>\<close>
definition reduce_sum_last :: "fl tensor \<Rightarrow> error + fl tensor" where
  "reduce_sum_last t =
     (if shape t = [] then Inl InvalidArgumentError
      else Inr (Tensor (butlast (shape t))
                  (\<lambda>idx. fsum (map (\<lambda>k. get t (idx @ [k])) [0..<last (shape t)]))))"

text \<open>\<open>tf.reduce_sum(t, axis=-2)\<close>\<close>
definition reduce_sum_penult :: "fl tensor \<Rightarrow> error + fl tensor" where
  "reduce_sum_penult t =
     (if length (shape t) < 2 then Inl InvalidArgumentError
      else Inr (Tensor (butlast (butlast (shape t)) @ [last (shape t)])
                  (\<lambda>idx. fsum (map (\<lambda>k. get t (butlast idx @ [k, last idx]))
                                   [0..<last (butlast (shape t))]))))"

text \<open>\<open>tf.concat(ts, axis=0)\<close>\<close>
fun pick_first :: "'a tensor \<Rightarrow> 'a tensor list \<Rightarrow> nat \<Rightarrow> nat list \<Rightarrow> 'a" where
  "pick_first t [] i idx = get t (i # idx)"
| "pick_first t (u # us) i idx =
     (if i < hd (shape t) then get t (i # idx)
      else pick_first u us (i - hd (shape t)) idx)"

definition concat_first :: "'a tensor list \<Rightarrow> error + 'a tensor" where
  "concat_first ts =
     (case ts of
        [] \<Rightarrow> Inl InvalidArgumentError
      | t # us \<Rightarrow>
          if shape t = [] \<or> \<not> list_all (\<lambda>u. shape u \<noteq> [] \<and> tl (shape u) = tl (shape t)) us
          then Inl InvalidArgumentError
          else Inr (Tensor (sum_list (map (\<lambda>u. hd (shape u)) ts) # tl (shape t))
                      (\<lambda>idx. pick_first t us (hd idx) (tl idx))))"

text \<open>\<open>tf.concat(ts, axis=-1)\<close>\<close>
fun pick_last :: "'a tensor \<Rightarrow> 'a tensor list \<Rightarrow> nat list \<Rightarrow> nat \<Rightarrow> 'a" where
  "pick_last t [] idx i = get t (idx @ [i])"
| "pick_last t (u # us) idx i =
     (if i < last (shape t) then get t (idx @ [i])
      else pick_last u us idx (i - last (shape t)))"

definition concat_last :: "'a tensor list \<Rightarrow> error + 'a tensor" where
  "concat_last ts =
     (case ts of
        [] \<Rightarrow> Inl InvalidArgumentError
      | t # us \<Rightarrow>
          if shape t = [] \<or>
             \<not> list_all (\<lambda>u. shape u \<noteq> [] \<and> butlast (shape u) = butlast (shape t)) us
          then Inl InvalidArgumentError
          else Inr (Tensor (butlast (shape t) @ [sum_list (map (\<lambda>u. last (shape u)) ts)])
                      (\<lambda>idx. pick_last t us (butlast idx) (last idx))))"

text \<open>All indices inside a shape, in row-major order.\<close>
fun indices_of :: "nat list \<Rightarrow> nat list list" where
  "indices_of [] = [[]]"
| "indices_of (n # s) = concat (map (\<lambda>i. map ((#) i) (indices_of s)) [0..<n])"

text \<open>
  \<open>tf.gather(params, indices)\<close> along axis 0. On a CPU an index outside
  \<open>[0, params.shape[0])\<close> raises.
\<close>
definition gather :: "'a tensor \<Rightarrow> int tensor \<Rightarrow> error + 'a tensor" where
  "gather params ind =
     (case shape params of
        [] \<Rightarrow> Inl InvalidArgumentError
      | n # s \<Rightarrow>
          if list_all (\<lambda>idx. 0 \<le> get ind idx \<and> get ind idx < int n) (indices_of (shape ind))
          then Inr (Tensor (shape ind @ s)
                      (\<lambda>idx. get params (nat (get ind (take (length (shape ind)) idx))
                                           # drop (length (shape ind)) idx)))
          else Inl InvalidArgumentError)"

section \<open>The triangle reference element\<close>

text \<open>
  The modules \<open>shape_functions\<close> and \<open>gaussian_quadrature\<close> are imported by
  \<open>triangle_element.py\<close>. Their three functions are parameters of the model, collected in
  one record. A shape function takes the tensors \<open>r\<close> and \<open>s\<close> and returns the shape
  values and the gradients; the quadrature rule takes the order and the data type and
  returns the weights and the nodes.
\<close>

datatype dtype = Float32 | Float64

type_synonym shape_fn = "fl tensor \<Rightarrow> fl tensor \<Rightarrow> error + (fl tensor \<times> fl tensor)"

record ext =
  p1_shape_fn :: shape_fn
  p2_shape_fn :: shape_fn
  gauss_quad_nodes_and_weights :: "int \<Rightarrow> dtype \<Rightarrow> error + (fl tensor \<times> fl tensor)"

record triangle_element =
  degree :: int
  dtype :: dtype
  shape_function :: shape_fn
  quadrature_order :: int
  element_dim :: int

text \<open>\<open>TriangleElement.__init__\<close>\<close>
definition TriangleElement_init :: "ext \<Rightarrow> int \<Rightarrow> dtype \<Rightarrow> error + triangle_element" where
  "TriangleElement_init x d dt =
     (if d = 1 then
        Inr \<lparr>degree = d, dtype = dt, shape_function = p1_shape_fn x,
             quadrature_order = 2, element_dim = 3\<rparr>
      else if d = 2 then
        Inr \<lparr>degree = d, dtype = dt, shape_function = p2_shape_fn x,
             quadrature_order = 4, element_dim = 6\<rparr>
      else Inl NotImplementedError)"

text \<open>\<open>TriangleElement.get_quadrature_nodes_and_weights\<close>\<close>
definition get_quadrature_nodes_and_weights ::
  "ext \<Rightarrow> triangle_element \<Rightarrow> error + (fl tensor \<times> fl tensor)" where
  "get_quadrature_nodes_and_weights x e =
     gauss_quad_nodes_and_weights x (quadrature_order e) (dtype e)"

text \<open>
  \<open>TriangleElement.isomap\<close>. The source returns the shape values, the pushed-forward
  gradients and the Jacobian determinant, in this order.
\<close>
definition isomap ::
  "triangle_element \<Rightarrow> fl tensor \<Rightarrow> fl tensor \<Rightarrow> error + (fl tensor \<times> fl tensor \<times> fl tensor)" where
  "isomap e nodes canonical_coordinates =
     bindE (index_last canonical_coordinates 0) (\<lambda>r.
     bindE (index_last canonical_coordinates 1) (\<lambda>s.
     bindE (shape_function e r s) (\<lambda>(shape_fn_vals, shape_fn_grad).
     bindE (bindE (index_last nodes 0) newaxis_penult) (\<lambda>x.
     bindE (bindE (index_last nodes 1) newaxis_penult) (\<lambda>y.
     bindE (bindE (bindE (index_first shape_fn_grad 0) (\<lambda>g. tmul g x)) reduce_sum_last) (\<lambda>j11.
     bindE (bindE (bindE (index_first shape_fn_grad 0) (\<lambda>g. tmul g y)) reduce_sum_last) (\<lambda>j12.
     bindE (bindE (bindE (index_first shape_fn_grad 1) (\<lambda>g. tmul g x)) reduce_sum_last) (\<lambda>j21.
     bindE (bindE (bindE (index_first shape_fn_grad 1) (\<lambda>g. tmul g y)) reduce_sum_last) (\<lambda>j22.
     bindE (bindE (tmul j11 j22) (\<lambda>a. bindE (tmul j12 j21) (\<lambda>b. tsub a b))) (\<lambda>jacobian_det.
     bindE (bindE (bindE (index_first shape_fn_grad 0) (\<lambda>g. tmul (newaxis_last j22) g)) (\<lambda>a.
            bindE (bindE (index_first shape_fn_grad 1) (\<lambda>g. tmul (newaxis_last j12) g)) (\<lambda>b.
            bindE (tsub a b) (\<lambda>n. tdiv n (newaxis_last jacobian_det))))) (\<lambda>dSdx.
     bindE (bindE (bindE (index_first shape_fn_grad 0) (\<lambda>g. tmul (tneg (newaxis_last j21)) g)) (\<lambda>a.
            bindE (bindE (index_first shape_fn_grad 1) (\<lambda>g. tmul (newaxis_last j11) g)) (\<lambda>b.
            bindE (tadd a b) (\<lambda>n. tdiv n (newaxis_last jacobian_det))))) (\<lambda>dSdy.
     bindE (concat_first [newaxis_first dSdx, newaxis_first dSdy]) (\<lambda>pushfwd_shape_fn_grad.
     Inr (shape_fn_vals, pushfwd_shape_fn_grad, jacobian_det))))))))))))))"

section \<open>Meshes\<close>

text \<open>
  The mesh classes are not part of the sources at hand; a mesh is the record of the
  attributes the code reads. \<open>get_tensor_repr\<close> is a method of the mesh class and is a
  parameter where it is called.
\<close>

record mesh =
  nodes :: "fl tensor"
  elements :: "int tensor"
  n_nodes :: int
  n_elements :: int

text \<open>\<open>TriangleElement.get_quadrature_nodes\<close>\<close>
definition get_quadrature_nodes :: "ext \<Rightarrow> triangle_element \<Rightarrow> mesh \<Rightarrow> error + fl tensor" where
  "get_quadrature_nodes x e m =
     bindE (gauss_quad_nodes_and_weights x (quadrature_order e) (dtype e)) (\<lambda>(wts, quad_nodes).
     bindE (gather (nodes m) (elements m)) (\<lambda>element_nodes.
     bindE (index_last quad_nodes 0) (\<lambda>r.
     bindE (index_last quad_nodes 1) (\<lambda>s.
     bindE (shape_function e r s) (\<lambda>(shape_fn_vals, shape_fn_grads).
     bindE (newaxis_antepenult element_nodes) (\<lambda>a.
     bindE (tmul a (newaxis_last shape_fn_vals)) reduce_sum_penult))))))"

text \<open>\<open>TriangleElement.orientate_element_indices\<close>\<close>
definition orientate_element_indices :: "triangle_element \<Rightarrow> mesh \<Rightarrow> error + int tensor" where
  "orientate_element_indices e m =
     (if element_dim e = 3 then Inr (elements m)
      else if element_dim e = 6 then
        bindE (index_last (elements m) 0) (\<lambda>c0.
        bindE (index_last (elements m) 5) (\<lambda>c5.
        bindE (index_last (elements m) 1) (\<lambda>c1.
        bindE (index_last (elements m) 3) (\<lambda>c3.
        bindE (index_last (elements m) 2) (\<lambda>c2.
        bindE (index_last (elements m) 4) (\<lambda>c4.
        concat_last [newaxis_last c0, newaxis_last c5, newaxis_last c1,
                     newaxis_last c3, newaxis_last c2, newaxis_last c4]))))))
      else Inl NotImplementedError)"

section \<open>The local convection matrix\<close>

text \<open>
  The value of the local variable \<open>wxarea\<close> of \<open>assemble_local_convection_matrix\<close>,
  after the four statements of the function's body.
\<close>
definition local_convection_wxarea :: "ext \<Rightarrow> mesh \<Rightarrow> triangle_element \<Rightarrow> error + fl tensor" where
  "local_convection_wxarea x m e =
     bindE (gather (nodes m) (elements m)) (\<lambda>element_nodes.
     bindE (get_quadrature_nodes_and_weights x e) (\<lambda>(wts, quad_nodes).
     bindE (isomap e element_nodes quad_nodes) (\<lambda>(shape_fn_vals, pf_shape_fn_grad, jac_det).
     bindE (tmul jac_det wts) (\<lambda>p. tdiv p (scalar (Fin 2))))))"

text \<open>
  \<open>assemble_local_convection_matrix\<close>. The body ends after the assignment to \<open>wxarea\<close>,
  with no \<open>return\<close> statement: where no statement raises, the call returns Python's
  \<open>None\<close>, which is \<open>None\<close> here; a tensor would be \<open>Some\<close>.
\<close>
definition assemble_local_convection_matrix ::
  "ext \<Rightarrow> fl tensor \<Rightarrow> mesh \<Rightarrow> triangle_element \<Rightarrow> error + fl tensor option" where
  "assemble_local_convection_matrix x transport_vector_field m e =
     bindE (local_convection_wxarea x m e) (\<lambda>wxarea. Inr None)"

section \<open>The mesh provider layer\<close>

text \<open>
  \<open>AssembleStiffnessMatrix\<close> is a layer of the repository that is not part of the sources
  at hand: the layer applied to a tensor representation of the mesh is a parameter. Each
  call of it is recorded in a trace, which the constructor takes and returns.
\<close>

datatype event = AssembleStiffnessMatrix

record ('r, 'm) mesh_provider =
  reference_element :: triangle_element
  provider_mesh :: mesh
  padding_element :: int
  provider_n_nodes :: int
  provider_n_elements :: int
  return_precond_matrix :: bool
  precond_matrix :: "'m option"

text \<open>\<open>tf.shape(t)[-1]\<close>\<close>
definition last_dim :: "'a tensor \<Rightarrow> error + nat" where
  "last_dim t = (if shape t = [] then Inl InvalidArgumentError else Inr (last (shape t)))"

text \<open>\<open>MeshProvider._build_precond_matrix\<close>\<close>
definition build_precond_matrix ::
  "(mesh \<Rightarrow> 'r) \<Rightarrow> (triangle_element \<Rightarrow> 'r \<Rightarrow> error + 'm) \<Rightarrow> ('r, 'm) mesh_provider \<Rightarrow>
   event list \<Rightarrow> (error + ('r, 'm) mesh_provider) \<times> event list" where
  "build_precond_matrix get_tensor_repr assemble p tr =
     (case assemble (reference_element p) (get_tensor_repr (provider_mesh p)) of
        Inl err \<Rightarrow> (Inl err, tr @ [AssembleStiffnessMatrix])
      | Inr M \<Rightarrow> (Inr (p\<lparr>precond_matrix := Some M\<rparr>), tr @ [AssembleStiffnessMatrix]))"

text \<open>
  \<open>MeshProvider.__init__\<close>. The constructor of the base layer, which the source calls
  first with the reference element and the name, is not part of the sources at hand; it
  is taken to store the reference element and to do nothing else. The check of the
  element width follows it, before any other statement.
\<close>
definition MeshProvider_init ::
  "(mesh \<Rightarrow> 'r) \<Rightarrow> (triangle_element \<Rightarrow> 'r \<Rightarrow> error + 'm) \<Rightarrow> mesh \<Rightarrow> triangle_element \<Rightarrow>
   int \<Rightarrow> bool \<Rightarrow> event list \<Rightarrow> (error + ('r, 'm) mesh_provider) \<times> event list" where
  "MeshProvider_init get_tensor_repr assemble m ref padding rpm tr =
     (case last_dim (elements m) of
        Inl err \<Rightarrow> (Inl err, tr)
      | Inr w \<Rightarrow>
          if int w \<noteq> element_dim ref then (Inl ValueError, tr)
          else
            let p = \<lparr>reference_element = ref, provider_mesh = m, padding_element = padding,
                     provider_n_nodes = n_nodes m, provider_n_elements = n_elements m,
                     return_precond_matrix = rpm, precond_matrix = None\<rparr>
            in if rpm then build_precond_matrix get_tensor_repr assemble p tr
               else (Inr p, tr))"

datatype ('r, 'm) call_result = Repr 'r | ReprAndPrecond 'r 'm

text \<open>\<open>MeshProvider.call\<close>\<close>
definition MeshProvider_call ::
  "(mesh \<Rightarrow> 'r) \<Rightarrow> ('r, 'm) mesh_provider \<Rightarrow> 'i \<Rightarrow> error + ('r, 'm) call_result" where
  "MeshProvider_call get_tensor_repr p inputs =
     (let mesh_tensor_repr = get_tensor_repr (provider_mesh p) in
      if return_precond_matrix p then
        (case precond_matrix p of
           None \<Rightarrow> Inl AttributeError
         | Some M \<Rightarrow> Inr (ReprAndPrecond mesh_tensor_repr M))
      else Inr (Repr mesh_tensor_repr))"

section \<open>The absent modules, as the specification describes them\<close>

text \<open>
  Modelled from the spec: the Gauss table \<open>gauss_quad_nodes_and_weights\<close> of the module
  \<open>gaussian_quadrature\<close>, which is not part of the sources at hand. The specification
  gives a fixed table for each of the orders 2 and 4 and a failure for every other
  order; it does not list the entries, so the two tables are parameters. The failure is
  the \<open>NotImplementedError\<close> that the docstring of \<open>get_quadrature_nodes_and_weights\<close>
  names.
\<close>
definition gauss_quad_nodes_and_weights_spec ::
  "(fl tensor \<times> fl tensor) \<Rightarrow> (fl tensor \<times> fl tensor) \<Rightarrow> int \<Rightarrow> dtype \<Rightarrow>
   error + (fl tensor \<times> fl tensor)" where
  "gauss_quad_nodes_and_weights_spec table2 table4 order dt =
     (if order = 2 then Inr table2
      else if order = 4 then Inr table4
      else Inl NotImplementedError)"

text \<open>
  Modelled from the spec: the linear shape functions \<open>p1_shape_fn\<close> of the module
  \<open>shape_functions\<close>, which is not part of the sources at hand. The values are
  \<open>1 - r - s\<close>, \<open>r\<close> and \<open>s\<close> along a new last axis; the gradients are the constants
  \<open>(-1, 1, 0)\<close> with respect to \<open>r\<close> and \<open>(-1, 0, 1)\<close> with respect to \<open>s\<close>, under a
  leading axis of extent 2.
\<close>
definition p1_shape_fn_spec :: shape_fn where
  "p1_shape_fn_spec r s =
     (case broadcast_shape (shape r) (shape s) of
        None \<Rightarrow> Inl InvalidArgumentError
      | Some b \<Rightarrow>
          Inr (Tensor (b @ [3])
                 (\<lambda>idx. let rv = get r (bidx (shape r) (butlast idx));
                             sv = get s (bidx (shape s) (butlast idx))
                         in [fsub (fsub (Fin 1) rv) sv, rv, sv] ! last idx),
               Tensor (2 # b @ [3])
                 (\<lambda>idx. [[Fin (- 1), Fin 1, Fin 0], [Fin (- 1), Fin 0, Fin 1]]
                          ! hd idx ! last idx)))"

section \<open>Concrete inputs\<close>

definition of_list1 :: "'a list \<Rightarrow> 'a tensor" where
  "of_list1 xs = Tensor [length xs] (\<lambda>idx. xs ! hd idx)"

definition of_list2 :: "nat \<Rightarrow> 'a list list \<Rightarrow> 'a tensor" where
  "of_list2 w xss = Tensor [length xss, w] (\<lambda>idx. xss ! hd idx ! hd (tl idx))"

definition of_list3 :: "nat \<Rightarrow> nat \<Rightarrow> 'a list list list \<Rightarrow> 'a tensor" where
  "of_list3 v w xsss =
     Tensor [length xsss, v, w] (\<lambda>idx. xsss ! hd idx ! hd (tl idx) ! hd (tl (tl idx)))"

text \<open>
  A three-point quadrature rule on the canonical triangle, with weights that sum to 1,
  as the table of order 2 of the examples.
\<close>
definition quad2_weights :: "fl tensor" where
  "quad2_weights = of_list1 [Fin (1 / 3), Fin (1 / 3), Fin (1 / 3)]"

definition quad2_nodes :: "fl tensor" where
  "quad2_nodes = of_list2 2 [[Fin (1 / 6), Fin (1 / 6)],
                             [Fin (2 / 3), Fin (1 / 6)],
                             [Fin (1 / 6), Fin (2 / 3)]]"

text \<open>
  An environment for the examples, which use linear elements only: the linear shape
  functions as the specification gives them, and the table above for the order 2.
\<close>
definition ext_example :: ext where
  "ext_example =
     \<lparr>p1_shape_fn = p1_shape_fn_spec,
      p2_shape_fn = (\<lambda>r s. Inl NotImplementedError),
      gauss_quad_nodes_and_weights =
        (\<lambda>order dt. if order = 2 then Inr (quad2_weights, quad2_nodes)
                     else Inl NotImplementedError)\<rparr>"

definition p1_element :: triangle_element where
  "p1_element =
     \<lparr>degree = 1, dtype = Float32, shape_function = p1_shape_fn_spec,
      quadrature_order = 2, element_dim = 3\<rparr>"

definition p2_element :: triangle_element where
  "p2_element =
     \<lparr>degree = 2, dtype = Float32, shape_function = (\<lambda>r s. Inl NotImplementedError),
      quadrature_order = 4, element_dim = 6\<rparr>"

text \<open>The canonical triangle, as a mesh of one element.\<close>
definition unit_mesh :: mesh where
  "unit_mesh =
     \<lparr>nodes = of_list2 2 [[Fin 0, Fin 0], [Fin 1, Fin 0], [Fin 0, Fin 1]],
      elements = of_list2 3 [[0, 1, 2]], n_nodes = 3, n_elements = 1\<rparr>"

text \<open>The canonical triangle with its nodes listed clockwise.\<close>
definition reversed_mesh :: mesh where
  "reversed_mesh =
     \<lparr>nodes = of_list2 2 [[Fin 0, Fin 0], [Fin 1, Fin 0], [Fin 0, Fin 1]],
      elements = of_list2 3 [[0, 2, 1]], n_nodes = 3, n_elements = 1\<rparr>"

text \<open>The node coordinates of one element, the canonical triangle itself.\<close>
definition unit_nodes :: "fl tensor" where
  "unit_nodes = of_list3 3 2 [[[Fin 0, Fin 0], [Fin 1, Fin 0], [Fin 0, Fin 1]]]"

text \<open>Three collinear nodes: a degenerate element.\<close>
definition degenerate_nodes :: "fl tensor" where
  "degenerate_nodes = of_list3 3 2 [[[Fin 0, Fin 0], [Fin 1, Fin 0], [Fin 2, Fin 0]]]"

text \<open>The two coordinates of the quadrature nodes, and the linear shape functions there.\<close>
definition quad2_r :: "fl tensor" where
  "quad2_r = Tensor [3] (\<lambda>idx. get quad2_nodes (idx @ [0]))"

definition quad2_s :: "fl tensor" where
  "quad2_s = Tensor [3] (\<lambda>idx. get quad2_nodes (idx @ [1]))"

definition p1_at_quad2 :: "fl tensor \<times> fl tensor" where
  "p1_at_quad2 = projr (p1_shape_fn_spec quad2_r quad2_s)"

text \<open>One quadratic element on six nodes.\<close>
definition p2_mesh :: mesh where
  "p2_mesh =
     \<lparr>nodes = of_list2 2 [[Fin 0, Fin 0], [Fin 1, Fin 0], [Fin 0, Fin 1],
                          [Fin (1 / 2), Fin (1 / 2)], [Fin 0, Fin (1 / 2)], [Fin (1 / 2), Fin 0]],
      elements = of_list2 6 [[0, 1, 2, 3, 4, 5]], n_nodes = 6, n_elements = 1\<rparr>"

text \<open>
  The element nodes of the two one-element meshes, as \<open>tf.gather\<close> returns them, and
  what \<open>isomap\<close> returns on them at the quadrature nodes.
\<close>
definition unit_element_nodes :: "fl tensor" where
  "unit_element_nodes = projr (gather (nodes unit_mesh) (elements unit_mesh))"

definition reversed_element_nodes :: "fl tensor" where
  "reversed_element_nodes = projr (gather (nodes reversed_mesh) (elements reversed_mesh))"

definition unit_isomap :: "fl tensor \<times> fl tensor \<times> fl tensor" where
  "unit_isomap = projr (isomap p1_element unit_element_nodes quad2_nodes)"

definition reversed_isomap :: "fl tensor \<times> fl tensor \<times> fl tensor" where
  "reversed_isomap = projr (isomap p1_element reversed_element_nodes quad2_nodes)"

section \<open>The entries of the Jacobian\<close>

text \<open>
  The sum \<open>\<Sum>\<^sub>k \<partial>S\<^sub>k/\<partial>a \<cdot> c\<^sub>k\<close> of the specification, at the quadrature node \<open>q\<close> of the
  element at the batch index \<open>b\<close>: \<open>a\<close> is 0 for \<open>r\<close> and 1 for \<open>s\<close>, \<open>c\<close> is 0 for \<open>x\<close>
  and 1 for \<open>y\<close>, and \<open>D\<close> is the number of shape functions.
\<close>
definition jacobian_entry ::
  "fl tensor \<Rightarrow> fl tensor \<Rightarrow> nat \<Rightarrow> nat \<Rightarrow> nat \<Rightarrow> nat list \<Rightarrow> nat \<Rightarrow> fl" where
  "jacobian_entry grad nds D a c b q =
     fsum (map (\<lambda>k. fmul (get grad [a, q, k]) (get nds (b @ [k, c]))) [0..<D])"

section \<open>Properties of the tensor operations\<close>

lemma bindE_Inr [simp]: "bindE (Inr v) f = f v"
  by (simp add: bindE_def)

lemma bindE_Inl [simp]: "bindE (Inl e) f = Inl e"
  by (simp add: bindE_def)

lemma valid_idx_Nil [simp]: "valid_idx [] [] = True"
  by (simp add: valid_idx_def)

lemma valid_idx_Cons [simp]: "valid_idx (i # idx) (n # s) = (i < n \<and> valid_idx idx s)"
  by (simp add: valid_idx_def)

lemma valid_idx_length: "valid_idx idx s \<Longrightarrow> length idx = length s"
  by (simp add: valid_idx_def list_all2_lengthD)

lemma valid_idx_append:
  "length a = length s \<Longrightarrow> valid_idx (a @ b) (s @ t) = (valid_idx a s \<and> valid_idx b t)"
  by (simp add: valid_idx_def list_all2_append)

lemma bshape_rev_Nil2 [simp]: "bshape_rev xs [] = Some xs"
  by (cases xs) simp_all

lemma bshape_rev_same [simp]: "bshape_rev xs xs = Some xs"
  by (induction xs) simp_all

lemma broadcast_shape_same [simp]: "broadcast_shape s s = Some s"
  by (simp add: broadcast_shape_def)

lemma broadcast_shape_Nil2 [simp]: "broadcast_shape s [] = Some s"
  by (simp add: broadcast_shape_def)

lemma broadcast_B1 [simp]: "broadcast_shape [n, D] (bs @ [Suc 0, D]) = Some (bs @ [n, D])"
  by (simp add: broadcast_shape_def)

lemma broadcast_B3 [simp]: "broadcast_shape (bs @ [n, Suc 0]) [n, D] = Some (bs @ [n, D])"
  by (simp add: broadcast_shape_def)

lemma broadcast_B4 [simp]: "broadcast_shape (bs @ [n, D]) (bs @ [n, Suc 0]) = Some (bs @ [n, D])"
  by (simp add: broadcast_shape_def)

lemma broadcast_B5 [simp]: "broadcast_shape (bs @ [Q]) [Q] = Some (bs @ [Q])"
  by (simp add: broadcast_shape_def)

lemma broadcast_B7 [simp]:
  "broadcast_shape (es @ [Suc 0, D, 2]) [Q, D, Suc 0] = Some (es @ [Q, D, 2])"
  by (simp add: broadcast_shape_def)

lemma bidx_valid: "valid_idx idx s \<Longrightarrow> bidx s (pre @ idx) = idx"
proof -
  assume v: "valid_idx idx s"
  then have l: "length idx = length s" by (rule valid_idx_length)
  have "map2 (\<lambda>d i. if d = 1 then 0 else i) s idx = idx"
    using v unfolding valid_idx_def
    by (induction idx s rule: list_all2_induct) auto
  then show ?thesis by (simp add: bidx_def l)
qed

lemma bidx_append:
  "length i1 = length s1 \<Longrightarrow> length i2 = length s2 \<Longrightarrow>
   bidx (s1 @ s2) (i1 @ i2) = bidx s1 i1 @ bidx s2 i2"
  by (simp add: bidx_def)


lemma butlast_snoc2 [simp]: "butlast (bs @ [n, D]) = bs @ [n]"
  by (simp add: butlast_append)

lemma bidx_one_last:
  assumes "valid_idx b bs" and "k < D"
  shows "bidx (bs @ [Suc 0, D]) (b @ [q, k]) = b @ [0, k]"
proof -
  have l: "length b = length bs" using assms(1) by (rule valid_idx_length)
  have "bidx (bs @ [Suc 0, D]) (b @ [q, k]) = bidx bs b @ bidx [Suc 0, D] [q, k]"
    using l by (simp add: bidx_append)
  moreover have "bidx bs b = b" using bidx_valid [OF assms(1), of "[]"] by simp
  moreover have "bidx [Suc 0, D] [q, k] = [0, k]" using assms(2) by (simp add: bidx_def)
  ultimately show ?thesis by simp
qed

lemma bidx_last_one:
  assumes "valid_idx b bs" and "q < n"
  shows "bidx (bs @ [n, Suc 0]) (b @ [q, k]) = b @ [q, 0]"
proof -
  have l: "length b = length bs" using assms(1) by (rule valid_idx_length)
  have "bidx (bs @ [n, Suc 0]) (b @ [q, k]) = bidx bs b @ bidx [n, Suc 0] [q, k]"
    using l by (simp add: bidx_append)
  moreover have "bidx bs b = b" using bidx_valid [OF assms(1), of "[]"] by simp
  moreover have "bidx [n, Suc 0] [q, k] = [q, 0]" using assms(2) by (simp add: bidx_def)
  ultimately show ?thesis by simp
qed

lemma binop_ex:
  assumes "broadcast_shape (shape a) (shape b) = Some s"
  shows "\<exists>t. binop f a b = Inr t \<and> shape t = s \<and>
           (\<forall>idx. get t idx = f (get a (bidx (shape a) idx)) (get b (bidx (shape b) idx)))"
  using assms by (simp add: binop_def)

lemma coord_ex:
  assumes "shape nds = bs @ [D, 2]" and "c < 2"
  shows "\<exists>x. bindE (index_last nds c) newaxis_penult = Inr x \<and> shape x = bs @ [1, D] \<and>
           (\<forall>b k. get x (b @ [0, k]) = get nds (b @ [k, c]))"
  using assms by (simp add: index_last_def newaxis_penult_def butlast_append)

lemma jac_ex:
  assumes g: "shape grad = [2, n, D]" and x: "shape x = bs @ [1, D]" and a: "a < 2"
  shows "\<exists>j. bindE (bindE (index_first grad a) (\<lambda>g. tmul g x)) reduce_sum_last = Inr j \<and>
           shape j = bs @ [n] \<and>
           (\<forall>b q. valid_idx b bs \<and> q < n \<longrightarrow>
              get j (b @ [q]) =
                fsum (map (\<lambda>k. fmul (get grad [a, q, k]) (get x (b @ [0, k]))) [0..<D]))"
proof -
  define G where "G = Tensor [n, D] (\<lambda>idx. get grad (a # idx))"
  have hG: "index_first grad a = Inr G"
    using g a by (simp add: index_first_def G_def)
  have "broadcast_shape (shape G) (shape x) = Some (bs @ [n, D])"
    by (simp add: G_def x)
  from binop_ex [OF this, of fmul] obtain p where
    p: "tmul G x = Inr p" "shape p = bs @ [n, D]"
       "\<And>idx. get p idx = fmul (get G (bidx (shape G) idx)) (get x (bidx (shape x) idx))"
    unfolding tmul_def by blast
  define j where "j = Tensor (bs @ [n]) (\<lambda>idx. fsum (map (\<lambda>k. get p (idx @ [k])) [0..<D]))"
  have hj: "reduce_sum_last p = Inr j"
    by (simp add: reduce_sum_last_def p(2) j_def)
  have val: "get j (b @ [q]) =
               fsum (map (\<lambda>k. fmul (get grad [a, q, k]) (get x (b @ [0, k]))) [0..<D])"
    if v: "valid_idx b bs" and q: "q < n" for b q
  proof -
    have "get p (b @ [q, k]) = fmul (get grad [a, q, k]) (get x (b @ [0, k]))"
      if k: "k < D" for k
    proof -
      have "bidx [n, D] (b @ [q, k]) = [q, k]"
        using bidx_valid [of "[q, k]" "[n, D]" b] q k by simp
      moreover have "bidx (bs @ [Suc 0, D]) (b @ [q, k]) = b @ [0, k]"
        using v k by (rule bidx_one_last)
      ultimately show ?thesis by (simp add: p(3) G_def x)
    qed
    then have "map (\<lambda>k. get p (b @ [q, k])) [0..<D] =
               map (\<lambda>k. fmul (get grad [a, q, k]) (get x (b @ [0, k]))) [0..<D]"
      by (intro map_cong) auto
    then show ?thesis
      by (simp only: j_def tensor.sel append_assoc append_Cons append_Nil)
  qed
  show ?thesis
    using hG p(1) hj val by (intro exI [of _ j]) (simp add: j_def)
qed


lemma bidx_full:
  assumes "valid_idx b bs" and "q < n" and "k < D"
  shows "bidx (bs @ [n, D]) (b @ [q, k]) = b @ [q, k]"
proof -
  have "valid_idx (b @ [q, k]) (bs @ [n, D])"
    using assms by (simp add: valid_idx_append valid_idx_length)
  from bidx_valid [OF this, of "[]"] show ?thesis by simp
qed

lemma grad_term_ex:
  assumes g: "shape grad = [2, n, D]" and l: "shape l = bs @ [n, 1]" and a: "a < 2"
  shows "\<exists>t. bindE (index_first grad a) (\<lambda>g. tmul l g) = Inr t \<and> shape t = bs @ [n, D] \<and>
           (\<forall>b q k. valid_idx b bs \<and> q < n \<and> k < D \<longrightarrow>
              get t (b @ [q, k]) = fmul (get l (b @ [q, 0])) (get grad [a, q, k]))"
proof -
  define G where "G = Tensor [n, D] (\<lambda>idx. get grad (a # idx))"
  have hG: "index_first grad a = Inr G"
    using g a by (simp add: index_first_def G_def)
  have "broadcast_shape (shape l) (shape G) = Some (bs @ [n, D])"
    by (simp add: G_def l)
  from binop_ex [OF this, of fmul] obtain t where
    t: "tmul l G = Inr t" "shape t = bs @ [n, D]"
       "\<And>idx. get t idx = fmul (get l (bidx (shape l) idx)) (get G (bidx (shape G) idx))"
    unfolding tmul_def by blast
  have "get t (b @ [q, k]) = fmul (get l (b @ [q, 0])) (get grad [a, q, k])"
    if "valid_idx b bs" and "q < n" and "k < D" for b q k
  proof -
    have "bidx [n, D] (b @ [q, k]) = [q, k]"
      using bidx_valid [of "[q, k]" "[n, D]" b] that by simp
    moreover have "bidx (bs @ [n, Suc 0]) (b @ [q, k]) = b @ [q, 0]"
      using that by (intro bidx_last_one) auto
    ultimately show ?thesis by (simp add: t(3) G_def l)
  qed
  then show ?thesis using hG t(1,2) by auto
qed

lemma same_shape_ex:
  assumes "shape a = s" and "shape b = s"
  shows "\<exists>t. binop f a b = Inr t \<and> shape t = s \<and>
           (\<forall>idx. valid_idx idx s \<longrightarrow> get t idx = f (get a idx) (get b idx))"
proof -
  have "broadcast_shape (shape a) (shape b) = Some s" using assms by simp
  from binop_ex [OF this, of f] obtain t where
    t: "binop f a b = Inr t" "shape t = s"
       "\<And>idx. get t idx = f (get a (bidx (shape a) idx)) (get b (bidx (shape b) idx))"
    by blast
  have "get t idx = f (get a idx) (get b idx)" if "valid_idx idx s" for idx
    using bidx_valid [OF that, of "[]"] assms by (simp add: t(3))
  then show ?thesis using t(1,2) by auto
qed

lemma div_ex:
  assumes nm: "shape nm = bs @ [n, D]" and dn: "shape dn = bs @ [n, 1]"
  shows "\<exists>t. tdiv nm dn = Inr t \<and> shape t = bs @ [n, D] \<and>
           (\<forall>b q k. valid_idx b bs \<and> q < n \<and> k < D \<longrightarrow>
              get t (b @ [q, k]) = fdiv (get nm (b @ [q, k])) (get dn (b @ [q, 0])))"
proof -
  have "broadcast_shape (shape nm) (shape dn) = Some (bs @ [n, D])"
    by (simp add: nm dn)
  from binop_ex [OF this, of fdiv] obtain t where
    t: "tdiv nm dn = Inr t" "shape t = bs @ [n, D]"
       "\<And>idx. get t idx = fdiv (get nm (bidx (shape nm) idx)) (get dn (bidx (shape dn) idx))"
    unfolding tdiv_def by blast
  have "get t (b @ [q, k]) = fdiv (get nm (b @ [q, k])) (get dn (b @ [q, 0]))"
    if "valid_idx b bs" and "q < n" and "k < D" for b q k
    using bidx_full [of b bs q n k D] bidx_last_one [of b bs q n k] that
    by (simp add: t(3) nm dn)
  then show ?thesis using t(1,2) by auto
qed

lemma stack_ex:
  assumes "shape a = s" and "shape b = s"
  shows "\<exists>t. concat_first [newaxis_first a, newaxis_first b] = Inr t \<and> shape t = 2 # s \<and>
           (\<forall>idx. get t (0 # idx) = get a idx \<and> get t (1 # idx) = get b idx)"
  using assms by (simp add: concat_first_def newaxis_first_def)

lemma isomap_core:
  assumes r: "index_last cc 0 = Inr r" and s: "index_last cc 1 = Inr s"
    and sf: "shape_function e r s = Inr (vals, grad)"
    and g: "shape grad = [2, n, D]"
    and nd: "shape nds = bs @ [D, 2]"
  shows "\<exists>pf det. isomap e nds cc = Inr (vals, pf, det) \<and>
           shape det = bs @ [n] \<and> shape pf = 2 # bs @ [n, D] \<and>
           (\<forall>b q. valid_idx b bs \<and> q < n \<longrightarrow>
              get det (b @ [q]) =
                fsub (fmul (jacobian_entry grad nds D 0 0 b q) (jacobian_entry grad nds D 1 1 b q))
                     (fmul (jacobian_entry grad nds D 0 1 b q) (jacobian_entry grad nds D 1 0 b q))) \<and>
           (\<forall>b q k. valid_idx b bs \<and> q < n \<and> k < D \<longrightarrow>
              get pf (0 # b @ [q, k]) =
                fdiv (fsub (fmul (jacobian_entry grad nds D 1 1 b q) (get grad [0, q, k]))
                           (fmul (jacobian_entry grad nds D 0 1 b q) (get grad [1, q, k])))
                     (get det (b @ [q])) \<and>
              get pf (1 # b @ [q, k]) =
                fdiv (fadd (fmul (fneg (jacobian_entry grad nds D 1 0 b q)) (get grad [0, q, k]))
                           (fmul (jacobian_entry grad nds D 0 0 b q) (get grad [1, q, k])))
                     (get det (b @ [q])))"
proof -
  from coord_ex [OF nd, of 0] obtain x where
    x: "bindE (index_last nds 0) newaxis_penult = Inr x" "shape x = bs @ [1, D]"
       "\<And>b k. get x (b @ [0, k]) = get nds (b @ [k, 0])"
    by auto
  from coord_ex [OF nd, of 1] obtain y where
    y: "bindE (index_last nds 1) newaxis_penult = Inr y" "shape y = bs @ [1, D]"
       "\<And>b k. get y (b @ [0, k]) = get nds (b @ [k, 1])"
    by auto
  from jac_ex [OF g x(2), of 0] obtain j11 where
    j11: "bindE (bindE (index_first grad 0) (\<lambda>g. tmul g x)) reduce_sum_last = Inr j11"
         "shape j11 = bs @ [n]"
         "\<And>b q. valid_idx b bs \<Longrightarrow> q < n \<Longrightarrow> get j11 (b @ [q]) = jacobian_entry grad nds D 0 0 b q"
    by (auto simp: jacobian_entry_def x(3))
  from jac_ex [OF g y(2), of 0] obtain j12 where
    j12: "bindE (bindE (index_first grad 0) (\<lambda>g. tmul g y)) reduce_sum_last = Inr j12"
         "shape j12 = bs @ [n]"
         "\<And>b q. valid_idx b bs \<Longrightarrow> q < n \<Longrightarrow> get j12 (b @ [q]) = jacobian_entry grad nds D 0 1 b q"
    by (auto simp: jacobian_entry_def y(3))
  from jac_ex [OF g x(2), of 1] obtain j21 where
    j21: "bindE (bindE (index_first grad 1) (\<lambda>g. tmul g x)) reduce_sum_last = Inr j21"
         "shape j21 = bs @ [n]"
         "\<And>b q. valid_idx b bs \<Longrightarrow> q < n \<Longrightarrow> get j21 (b @ [q]) = jacobian_entry grad nds D 1 0 b q"
    by (auto simp: jacobian_entry_def x(3))
  from jac_ex [OF g y(2), of 1] obtain j22 where
    j22: "bindE (bindE (index_first grad 1) (\<lambda>g. tmul g y)) reduce_sum_last = Inr j22"
         "shape j22 = bs @ [n]"
         "\<And>b q. valid_idx b bs \<Longrightarrow> q < n \<Longrightarrow> get j22 (b @ [q]) = jacobian_entry grad nds D 1 1 b q"
    by (auto simp: jacobian_entry_def y(3))
  have vq: "valid_idx (b @ [q]) (bs @ [n])" if "valid_idx b bs" "q < n" for b q
    using that by (simp add: valid_idx_append valid_idx_length)
  have vqk: "valid_idx (b @ [q, k]) (bs @ [n, D])" if "valid_idx b bs" "q < n" "k < D" for b q k
    using that by (simp add: valid_idx_append valid_idx_length)
  from same_shape_ex [OF j11(2) j22(2), of fmul] obtain d1 where
    d1: "tmul j11 j22 = Inr d1" "shape d1 = bs @ [n]"
        "\<And>idx. valid_idx idx (bs @ [n]) \<Longrightarrow> get d1 idx = fmul (get j11 idx) (get j22 idx)"
    unfolding tmul_def by blast
  from same_shape_ex [OF j12(2) j21(2), of fmul] obtain d2 where
    d2: "tmul j12 j21 = Inr d2" "shape d2 = bs @ [n]"
        "\<And>idx. valid_idx idx (bs @ [n]) \<Longrightarrow> get d2 idx = fmul (get j12 idx) (get j21 idx)"
    unfolding tmul_def by blast
  from same_shape_ex [OF d1(2) d2(2), of fsub] obtain det where
    det: "tsub d1 d2 = Inr det" "shape det = bs @ [n]"
         "\<And>idx. valid_idx idx (bs @ [n]) \<Longrightarrow> get det idx = fsub (get d1 idx) (get d2 idx)"
    unfolding tsub_def by blast
  have detv: "get det (b @ [q]) =
                fsub (fmul (jacobian_entry grad nds D 0 0 b q) (jacobian_entry grad nds D 1 1 b q))
                     (fmul (jacobian_entry grad nds D 0 1 b q) (jacobian_entry grad nds D 1 0 b q))"
    if "valid_idx b bs" "q < n" for b q
    using that vq [OF that] by (simp add: det(3) d1(3) d2(3) j11(3) j12(3) j21(3) j22(3))
  have sh1: "shape (newaxis_last t) = bs @ [n, 1]" if "shape t = bs @ [n]" for t :: "fl tensor"
    using that by (simp add: newaxis_last_def)
  have gl: "get (newaxis_last t) (b @ [q, 0]) = get t (b @ [q])" for t :: "fl tensor" and b q
    by (simp add: newaxis_last_def butlast_append)
  from grad_term_ex [OF g sh1 [OF j22(2)], of 0] obtain a1 where
    a1: "bindE (index_first grad 0) (\<lambda>g. tmul (newaxis_last j22) g) = Inr a1"
        "shape a1 = bs @ [n, D]"
        "\<And>b q k. valid_idx b bs \<Longrightarrow> q < n \<Longrightarrow> k < D \<Longrightarrow>
           get a1 (b @ [q, k]) = fmul (get j22 (b @ [q])) (get grad [0, q, k])"
    by (auto simp: gl)
  from grad_term_ex [OF g sh1 [OF j12(2)], of 1] obtain b1 where
    b1: "bindE (index_first grad 1) (\<lambda>g. tmul (newaxis_last j12) g) = Inr b1"
        "shape b1 = bs @ [n, D]"
        "\<And>b q k. valid_idx b bs \<Longrightarrow> q < n \<Longrightarrow> k < D \<Longrightarrow>
           get b1 (b @ [q, k]) = fmul (get j12 (b @ [q])) (get grad [1, q, k])"
    by (auto simp: gl)
  from same_shape_ex [OF a1(2) b1(2), of fsub] obtain n1 where
    n1: "tsub a1 b1 = Inr n1" "shape n1 = bs @ [n, D]"
        "\<And>idx. valid_idx idx (bs @ [n, D]) \<Longrightarrow> get n1 idx = fsub (get a1 idx) (get b1 idx)"
    unfolding tsub_def by blast
  from div_ex [OF n1(2) sh1 [OF det(2)]] obtain dSdx where
    dx: "tdiv n1 (newaxis_last det) = Inr dSdx" "shape dSdx = bs @ [n, D]"
        "\<And>b q k. valid_idx b bs \<Longrightarrow> q < n \<Longrightarrow> k < D \<Longrightarrow>
           get dSdx (b @ [q, k]) = fdiv (get n1 (b @ [q, k])) (get det (b @ [q]))"
    by (auto simp: gl)
  have sh2: "shape (tneg (newaxis_last j21)) = bs @ [n, 1]"
    by (simp add: tneg_def newaxis_last_def j21(2))
  have gn: "get (tneg (newaxis_last j21)) (b @ [q, 0]) = fneg (get j21 (b @ [q]))" for b q
    by (simp add: tneg_def newaxis_last_def butlast_append)
  from grad_term_ex [OF g sh2, of 0] obtain a2 where
    a2: "bindE (index_first grad 0) (\<lambda>g. tmul (tneg (newaxis_last j21)) g) = Inr a2"
        "shape a2 = bs @ [n, D]"
        "\<And>b q k. valid_idx b bs \<Longrightarrow> q < n \<Longrightarrow> k < D \<Longrightarrow>
           get a2 (b @ [q, k]) = fmul (fneg (get j21 (b @ [q]))) (get grad [0, q, k])"
    by (auto simp: gn)
  from grad_term_ex [OF g sh1 [OF j11(2)], of 1] obtain b2 where
    b2: "bindE (index_first grad 1) (\<lambda>g. tmul (newaxis_last j11) g) = Inr b2"
        "shape b2 = bs @ [n, D]"
        "\<And>b q k. valid_idx b bs \<Longrightarrow> q < n \<Longrightarrow> k < D \<Longrightarrow>
           get b2 (b @ [q, k]) = fmul (get j11 (b @ [q])) (get grad [1, q, k])"
    by (auto simp: gl)
  from same_shape_ex [OF a2(2) b2(2), of fadd] obtain n2 where
    n2: "tadd a2 b2 = Inr n2" "shape n2 = bs @ [n, D]"
        "\<And>idx. valid_idx idx (bs @ [n, D]) \<Longrightarrow> get n2 idx = fadd (get a2 idx) (get b2 idx)"
    unfolding tadd_def by blast
  from div_ex [OF n2(2) sh1 [OF det(2)]] obtain dSdy where
    dy: "tdiv n2 (newaxis_last det) = Inr dSdy" "shape dSdy = bs @ [n, D]"
        "\<And>b q k. valid_idx b bs \<Longrightarrow> q < n \<Longrightarrow> k < D \<Longrightarrow>
           get dSdy (b @ [q, k]) = fdiv (get n2 (b @ [q, k])) (get det (b @ [q]))"
    by (auto simp: gl)
  from stack_ex [OF dx(2) dy(2)] obtain pf where
    pf: "concat_first [newaxis_first dSdx, newaxis_first dSdy] = Inr pf"
        "shape pf = 2 # bs @ [n, D]"
        "\<And>idx. get pf (0 # idx) = get dSdx idx" "\<And>idx. get pf (1 # idx) = get dSdy idx"
    by blast
  have run: "isomap e nds cc = Inr (vals, pf, det)"
    by (simp only: isomap_def r s sf x(1) y(1) j11(1) j12(1) j21(1) j22(1) d1(1) d2(1) det(1)
                   a1(1) b1(1) n1(1) dx(1) a2(1) b2(1) n2(1) dy(1) pf(1) bindE_Inr prod.case)
  have gx: "get pf (0 # b @ [q, k]) =
              fdiv (fsub (fmul (jacobian_entry grad nds D 1 1 b q) (get grad [0, q, k]))
                         (fmul (jacobian_entry grad nds D 0 1 b q) (get grad [1, q, k])))
                   (get det (b @ [q]))"
    if "valid_idx b bs" "q < n" "k < D" for b q k
    using that vqk [OF that] by (simp add: pf(3) dx(3) n1(3) a1(3) b1(3) j22(3) j12(3))
  have gy: "get pf (1 # b @ [q, k]) =
              fdiv (fadd (fmul (fneg (jacobian_entry grad nds D 1 0 b q)) (get grad [0, q, k]))
                         (fmul (jacobian_entry grad nds D 0 0 b q) (get grad [1, q, k])))
                   (get det (b @ [q]))"
    if "valid_idx b bs" "q < n" "k < D" for b q k
    using that vqk [OF that] by (simp add: pf(4) [simplified] dy(3) n2(3) a2(3) b2(3) j21(3) j11(3))
  show ?thesis
    using run det(2) pf(2) detv gx gy by blast
qed

section \<open>Construction\<close>

text \<open>
  Claim C5. Constructing a triangle element with degree 1 gives element dimension 3 and
  quadrature order 2, with degree 2 it gives element dimension 6 and quadrature order 4,
  every other degree raises \<open>NotImplementedError\<close>, and so the construction succeeds
  exactly for the degrees 1 and 2.
\<close>

theorem TriangleElement_init_degrees:
  "(\<exists>e. TriangleElement_init x 1 dt = Inr e \<and> element_dim e = 3 \<and> quadrature_order e = 2) \<and>
   (\<exists>e. TriangleElement_init x 2 dt = Inr e \<and> element_dim e = 6 \<and> quadrature_order e = 4) \<and>
   (TriangleElement_init x d dt = Inl NotImplementedError \<longleftrightarrow> d \<noteq> 1 \<and> d \<noteq> 2) \<and>
   ((\<exists>e. TriangleElement_init x d dt = Inr e) \<longleftrightarrow> d \<in> {1, 2})"
  by (simp add: TriangleElement_init_def)

lemma example_elements:
  "TriangleElement_init ext_example 1 Float32 = Inr p1_element"
  "TriangleElement_init ext_example 2 Float32 = Inr p2_element"
  by (simp_all add: TriangleElement_init_def ext_example_def p1_element_def p2_element_def)

lemma constructed_quadrature_order:
  "TriangleElement_init x d dt = Inr e \<Longrightarrow> quadrature_order e = 2 \<or> quadrature_order e = 4"
  by (auto simp: TriangleElement_init_def split: if_splits)

section \<open>The quadrature rule\<close>

text \<open>
  Claim C9. The Gauss table succeeds exactly for the orders 2 and 4, where it returns the
  fixed table of that order, and fails with \<open>NotImplementedError\<close> for every other
  order; \<open>get_quadrature_nodes_and_weights\<close> hands the element's quadrature order to
  the table and returns what the table returns.
\<close>

theorem gauss_quad_orders:
  "((\<exists>t. gauss_quad_nodes_and_weights_spec t2 t4 order dt = Inr t) \<longleftrightarrow> order \<in> {2, 4}) \<and>
   gauss_quad_nodes_and_weights_spec t2 t4 2 dt = Inr t2 \<and>
   gauss_quad_nodes_and_weights_spec t2 t4 4 dt = Inr t4 \<and>
   (gauss_quad_nodes_and_weights_spec t2 t4 order dt = Inl NotImplementedError
      \<longleftrightarrow> order \<notin> {2, 4}) \<and>
   get_quadrature_nodes_and_weights
     (x\<lparr>gauss_quad_nodes_and_weights := gauss_quad_nodes_and_weights_spec t2 t4\<rparr>) e =
     (if quadrature_order e = 2 then Inr t2
      else if quadrature_order e = 4 then Inr t4
      else Inl NotImplementedError)"
  by (simp add: gauss_quad_nodes_and_weights_spec_def get_quadrature_nodes_and_weights_def)

section \<open>The mesh provider\<close>

text \<open>
  Claim C8. Constructing a mesh provider from a mesh whose element tensor has a last
  axis of an extent other than the reference element's element dimension raises
  \<open>ValueError\<close>, and the trace of assembly calls is the one the constructor was given:
  the preconditioning matrix has not been assembled, whether it was asked for or not.
\<close>

theorem MeshProvider_init_shape_mismatch:
  assumes "shape (elements m) = s @ [w]" and "int w \<noteq> element_dim ref"
  shows "MeshProvider_init get_tensor_repr assemble m ref padding rpm tr = (Inl ValueError, tr)"
  using assms by (simp add: MeshProvider_init_def last_dim_def)

theorem MeshProvider_init_shape_mismatch_witness:
  "shape (elements unit_mesh) = [1] @ [3] \<and> int 3 \<noteq> element_dim p2_element \<and>
   MeshProvider_init (\<lambda>m. m) (\<lambda>e r. Inr (0::int)) unit_mesh p2_element (- 1) True []
     = (Inl ValueError, [])"
proof -
  have s: "shape (elements unit_mesh) = [1] @ [3]"
    by (simp add: unit_mesh_def of_list2_def)
  have d: "int 3 \<noteq> element_dim p2_element"
    by (simp add: p2_element_def)
  show ?thesis
    using s d MeshProvider_init_shape_mismatch [OF s d] by simp
qed

text \<open>
  Claim C10. The result of \<open>MeshProvider.call\<close> does not depend on its \<open>inputs\<close>
  argument: two calls on the same provider return the same result whatever they are
  given, and on a provider that the constructor returned it is the tensor representation
  of the constructor's mesh, together with the stored preconditioning matrix when the
  flag \<open>return_precond_matrix\<close> was set.
\<close>

theorem MeshProvider_call_ignores_inputs:
  "MeshProvider_call get_tensor_repr p x = MeshProvider_call get_tensor_repr p y \<and>
   (MeshProvider_init get_tensor_repr assemble m ref padding rpm tr = (Inr p, tr') \<longrightarrow>
      (\<exists>M. MeshProvider_call get_tensor_repr p x =
             (if rpm then Inr (ReprAndPrecond (get_tensor_repr m) M)
              else Inr (Repr (get_tensor_repr m))) \<and>
           (rpm \<longrightarrow> assemble ref (get_tensor_repr m) = Inr M)))"
  by (auto simp: MeshProvider_call_def MeshProvider_init_def build_precond_matrix_def Let_def
           split: sum.splits if_splits)

theorem MeshProvider_call_ignores_inputs_witness:
  "MeshProvider_init (\<lambda>m. m) (\<lambda>e r. Inr (0::int)) unit_mesh p1_element (- 1) True []
     = (Inr \<lparr>reference_element = p1_element, provider_mesh = unit_mesh, padding_element = - 1,
             provider_n_nodes = 3, provider_n_elements = 1, return_precond_matrix = True,
             precond_matrix = Some 0\<rparr>, [AssembleStiffnessMatrix]) \<and>
   MeshProvider_call (\<lambda>m. m)
     \<lparr>reference_element = p1_element, provider_mesh = unit_mesh, padding_element = - 1,
      provider_n_nodes = 3, provider_n_elements = 1, return_precond_matrix = True,
      precond_matrix = Some (0::int)\<rparr> (1::nat)
     = Inr (ReprAndPrecond unit_mesh 0) \<and>
   MeshProvider_call (\<lambda>m. m)
     \<lparr>reference_element = p1_element, provider_mesh = unit_mesh, padding_element = - 1,
      provider_n_nodes = 3, provider_n_elements = 1, return_precond_matrix = True,
      precond_matrix = Some (0::int)\<rparr> ''other''
     = Inr (ReprAndPrecond unit_mesh 0)"
proof -
  let ?p = "\<lparr>reference_element = p1_element, provider_mesh = unit_mesh, padding_element = - 1,
             provider_n_nodes = 3, provider_n_elements = 1, return_precond_matrix = True,
             precond_matrix = Some (0::int)\<rparr>"
  have i: "MeshProvider_init (\<lambda>m. m) (\<lambda>e r. Inr (0::int)) unit_mesh p1_element (- 1) True []
             = (Inr ?p, [AssembleStiffnessMatrix])"
    by (simp add: MeshProvider_init_def last_dim_def build_precond_matrix_def
                  unit_mesh_def p1_element_def of_list2_def)
  have c: "MeshProvider_call (\<lambda>m. m) ?p (1::nat) = Inr (ReprAndPrecond unit_mesh 0)"
    by (simp add: MeshProvider_call_def)
  from MeshProvider_call_ignores_inputs
         [of "\<lambda>m. m" ?p "1::nat" "''other''" "\<lambda>e r. Inr (0::int)" unit_mesh p1_element "- 1"
             True "[]" "[AssembleStiffnessMatrix]"]
  have "MeshProvider_call (\<lambda>m. m) ?p (1::nat) = MeshProvider_call (\<lambda>m. m) ?p ''other''"
    by blast
  with i c show ?thesis by simp
qed

section \<open>The isoparametric map\<close>

lemma fdiv_zero_not_finite: "\<not> is_finite (fdiv a (Fin 0))"
  by (cases a) simp_all

lemma p1_at_quad2_eq:
  "p1_shape_fn_spec quad2_r quad2_s = Inr (fst p1_at_quad2, snd p1_at_quad2)"
  by (simp add: p1_at_quad2_def p1_shape_fn_spec_def quad2_r_def quad2_s_def)

lemma p1_grad_shape: "shape (snd p1_at_quad2) = [2, 3, 3]"
  by (simp add: p1_at_quad2_def p1_shape_fn_spec_def quad2_r_def quad2_s_def)

lemma p1_grad_get:
  "get (snd p1_at_quad2) [a, q, k] =
     [[Fin (- 1), Fin 1, Fin 0], [Fin (- 1), Fin 0, Fin 1]] ! a ! k"
  by (simp add: p1_at_quad2_def p1_shape_fn_spec_def quad2_r_def quad2_s_def)

lemma upt3: "[0..<3] = [0, 1, 2]"
  by (simp add: upt_rec)

text \<open>
  Claim C4. For node coordinates of shape \<open>[..., element_dim, 2]\<close> and \<open>n\<close> canonical
  coordinates, \<open>isomap\<close> returns the shape values at the canonical coordinates, the
  Jacobian determinant \<open>J11 \<cdot> J22 - J12 \<cdot> J21\<close> at every element and canonical
  coordinate, where \<open>J11 = \<Sum> \<partial>S/\<partial>r \<cdot> x\<close>, \<open>J12 = \<Sum> \<partial>S/\<partial>r \<cdot> y\<close>,
  \<open>J21 = \<Sum> \<partial>S/\<partial>s \<cdot> x\<close> and \<open>J22 = \<Sum> \<partial>S/\<partial>s \<cdot> y\<close>, and the physical gradients
  \<open>(J22 \<cdot> \<partial>S/\<partial>r - J12 \<cdot> \<partial>S/\<partial>s) / det\<close> and \<open>(- J21 \<cdot> \<partial>S/\<partial>r + J11 \<cdot> \<partial>S/\<partial>s) / det\<close>,
  stacked along a new first axis with the gradient in \<open>x\<close> first.
\<close>

theorem isomap_values:
  assumes "index_last cc 0 = Inr r" and "index_last cc 1 = Inr s"
    and "shape_function e r s = Inr (vals, grad)"
    and "shape grad = [2, n, D]"
    and "shape nds = bs @ [D, 2]"
  shows "\<exists>pf det. isomap e nds cc = Inr (vals, pf, det) \<and>
           shape det = bs @ [n] \<and> shape pf = 2 # bs @ [n, D] \<and>
           (\<forall>b q. valid_idx b bs \<and> q < n \<longrightarrow>
              get det (b @ [q]) =
                fsub (fmul (jacobian_entry grad nds D 0 0 b q) (jacobian_entry grad nds D 1 1 b q))
                     (fmul (jacobian_entry grad nds D 0 1 b q) (jacobian_entry grad nds D 1 0 b q))) \<and>
           (\<forall>b q k. valid_idx b bs \<and> q < n \<and> k < D \<longrightarrow>
              get pf (0 # b @ [q, k]) =
                fdiv (fsub (fmul (jacobian_entry grad nds D 1 1 b q) (get grad [0, q, k]))
                           (fmul (jacobian_entry grad nds D 0 1 b q) (get grad [1, q, k])))
                     (get det (b @ [q])) \<and>
              get pf (1 # b @ [q, k]) =
                fdiv (fadd (fmul (fneg (jacobian_entry grad nds D 1 0 b q)) (get grad [0, q, k]))
                           (fmul (jacobian_entry grad nds D 0 0 b q) (get grad [1, q, k])))
                     (get det (b @ [q])))"
  using assms by (rule isomap_core)

theorem isomap_values_witness:
  "index_last quad2_nodes 0 = Inr quad2_r \<and> index_last quad2_nodes 1 = Inr quad2_s \<and>
   shape_function p1_element quad2_r quad2_s = Inr (fst p1_at_quad2, snd p1_at_quad2) \<and>
   shape (snd p1_at_quad2) = [2, 3, 3] \<and> shape unit_nodes = [1] @ [3, 2] \<and>
   (\<exists>pf det. isomap p1_element unit_nodes quad2_nodes = Inr (fst p1_at_quad2, pf, det) \<and>
      get det [0, 0] = Fin 1 \<and> get pf [0, 0, 0, 0] = Fin (- 1) \<and> get pf [1, 0, 0, 2] = Fin 1)"
proof -
  have r: "index_last quad2_nodes 0 = Inr quad2_r"
    by (simp add: index_last_def quad2_nodes_def of_list2_def quad2_r_def)
  have s: "index_last quad2_nodes 1 = Inr quad2_s"
    by (simp add: index_last_def quad2_nodes_def of_list2_def quad2_s_def)
  have sf: "shape_function p1_element quad2_r quad2_s = Inr (fst p1_at_quad2, snd p1_at_quad2)"
    by (simp add: p1_element_def p1_at_quad2_eq)
  have nd: "shape unit_nodes = [1] @ [3, 2]"
    by (simp add: unit_nodes_def of_list3_def)
  from isomap_values [OF r s sf p1_grad_shape nd] obtain pf det where
    run: "isomap p1_element unit_nodes quad2_nodes = Inr (fst p1_at_quad2, pf, det)"
    and d: "\<And>b q. valid_idx b [1] \<Longrightarrow> q < 3 \<Longrightarrow> get det (b @ [q]) =
                fsub (fmul (jacobian_entry (snd p1_at_quad2) unit_nodes 3 0 0 b q)
                           (jacobian_entry (snd p1_at_quad2) unit_nodes 3 1 1 b q))
                     (fmul (jacobian_entry (snd p1_at_quad2) unit_nodes 3 0 1 b q)
                           (jacobian_entry (snd p1_at_quad2) unit_nodes 3 1 0 b q))"
    and gx: "\<And>b q k. valid_idx b [1] \<Longrightarrow> q < 3 \<Longrightarrow> k < 3 \<Longrightarrow> get pf (0 # b @ [q, k]) =
                fdiv (fsub (fmul (jacobian_entry (snd p1_at_quad2) unit_nodes 3 1 1 b q)
                                 (get (snd p1_at_quad2) [0, q, k]))
                           (fmul (jacobian_entry (snd p1_at_quad2) unit_nodes 3 0 1 b q)
                                 (get (snd p1_at_quad2) [1, q, k])))
                     (get det (b @ [q]))"
    and gy: "\<And>b q k. valid_idx b [1] \<Longrightarrow> q < 3 \<Longrightarrow> k < 3 \<Longrightarrow> get pf (1 # b @ [q, k]) =
                fdiv (fadd (fmul (fneg (jacobian_entry (snd p1_at_quad2) unit_nodes 3 1 0 b q))
                                 (get (snd p1_at_quad2) [0, q, k]))
                           (fmul (jacobian_entry (snd p1_at_quad2) unit_nodes 3 0 0 b q)
                                 (get (snd p1_at_quad2) [1, q, k])))
                     (get det (b @ [q]))"
    by blast
  have j: "jacobian_entry (snd p1_at_quad2) unit_nodes 3 0 0 [0] 0 = Fin 1"
          "jacobian_entry (snd p1_at_quad2) unit_nodes 3 0 1 [0] 0 = Fin 0"
          "jacobian_entry (snd p1_at_quad2) unit_nodes 3 1 0 [0] 0 = Fin 0"
          "jacobian_entry (snd p1_at_quad2) unit_nodes 3 1 1 [0] 0 = Fin 1"
    by (simp_all add: jacobian_entry_def fsum_def upt3 p1_grad_get unit_nodes_def of_list3_def)
  note j' = j [simplified]
  have d0: "get det [0, 0] = Fin 1"
    using d [of "[0]" 0] by (simp add: j' fsub_def)
  have x0: "get pf [0, 0, 0, 0] = Fin (- 1)"
    using gx [of "[0]" 0 0] by (simp add: j' d0 p1_grad_get fsub_def)
  have y2: "get pf [1, 0, 0, 2] = Fin 1"
    using gy [of "[0]" 0 2] by (simp add: j' d0 p1_grad_get)
  show ?thesis
    using r s sf p1_grad_shape nd run d0 x0 y2 by blast
qed


lemma quad2_r_eq: "index_last quad2_nodes 0 = Inr quad2_r"
  by (simp add: index_last_def quad2_nodes_def of_list2_def quad2_r_def)

lemma quad2_s_eq: "index_last quad2_nodes 1 = Inr quad2_s"
  by (simp add: index_last_def quad2_nodes_def of_list2_def quad2_s_def)

lemma p1_element_at_quad2:
  "shape_function p1_element quad2_r quad2_s = Inr (fst p1_at_quad2, snd p1_at_quad2)"
  by (simp add: p1_element_def p1_at_quad2_eq)

lemma degenerate_nodes_shape: "shape degenerate_nodes = [1] @ [3, 2]"
  by (simp add: degenerate_nodes_def of_list3_def)

lemma degenerate_jacobian:
  "jacobian_entry (snd p1_at_quad2) degenerate_nodes 3 0 0 [0] 0 = Fin 1"
  "jacobian_entry (snd p1_at_quad2) degenerate_nodes 3 0 (Suc 0) [0] 0 = Fin 0"
  "jacobian_entry (snd p1_at_quad2) degenerate_nodes 3 (Suc 0) 0 [0] 0 = Fin 2"
  "jacobian_entry (snd p1_at_quad2) degenerate_nodes 3 (Suc 0) (Suc 0) [0] 0 = Fin 0"
  by (simp_all add: jacobian_entry_def fsum_def upt3 p1_grad_get degenerate_nodes_def of_list3_def)

lemma isomap_degenerate:
  "\<exists>pf det. isomap p1_element degenerate_nodes quad2_nodes = Inr (fst p1_at_quad2, pf, det) \<and>
     get det [0, 0] = Fin 0 \<and> get pf [0, 0, 0, 0] = NaN \<and> get pf [1, 0, 0, 0] = PInf"
proof -
  from isomap_core [OF quad2_r_eq quad2_s_eq p1_element_at_quad2 p1_grad_shape
                       degenerate_nodes_shape]
  obtain pf det where
    run: "isomap p1_element degenerate_nodes quad2_nodes = Inr (fst p1_at_quad2, pf, det)"
    and d: "\<And>b q. valid_idx b [1] \<Longrightarrow> q < 3 \<Longrightarrow> get det (b @ [q]) =
                fsub (fmul (jacobian_entry (snd p1_at_quad2) degenerate_nodes 3 0 0 b q)
                           (jacobian_entry (snd p1_at_quad2) degenerate_nodes 3 1 1 b q))
                     (fmul (jacobian_entry (snd p1_at_quad2) degenerate_nodes 3 0 1 b q)
                           (jacobian_entry (snd p1_at_quad2) degenerate_nodes 3 1 0 b q))"
    and gx: "\<And>b q k. valid_idx b [1] \<Longrightarrow> q < 3 \<Longrightarrow> k < 3 \<Longrightarrow> get pf (0 # b @ [q, k]) =
                fdiv (fsub (fmul (jacobian_entry (snd p1_at_quad2) degenerate_nodes 3 1 1 b q)
                                 (get (snd p1_at_quad2) [0, q, k]))
                           (fmul (jacobian_entry (snd p1_at_quad2) degenerate_nodes 3 0 1 b q)
                                 (get (snd p1_at_quad2) [1, q, k])))
                     (get det (b @ [q]))"
    and gy: "\<And>b q k. valid_idx b [1] \<Longrightarrow> q < 3 \<Longrightarrow> k < 3 \<Longrightarrow> get pf (1 # b @ [q, k]) =
                fdiv (fadd (fmul (fneg (jacobian_entry (snd p1_at_quad2) degenerate_nodes 3 1 0 b q))
                                 (get (snd p1_at_quad2) [0, q, k]))
                           (fmul (jacobian_entry (snd p1_at_quad2) degenerate_nodes 3 0 0 b q)
                                 (get (snd p1_at_quad2) [1, q, k])))
                     (get det (b @ [q]))"
    by blast
  have d0: "get det [0, 0] = Fin 0"
    using d [of "[0]" 0] by (simp add: degenerate_jacobian fsub_def)
  have x0: "get pf [0, 0, 0, 0] = NaN"
    using gx [of "[0]" 0 0] by (simp add: degenerate_jacobian d0 p1_grad_get fsub_def)
  have y0: "get pf [1, 0, 0, 0] = PInf"
    using gy [of "[0]" 0 0] by (simp add: degenerate_jacobian d0 p1_grad_get)
  show ?thesis using run d0 x0 y0 by blast
qed

text \<open>
  Claim C3, as the specification states it, fails on the source: on three collinear
  nodes \<open>isomap\<close> returns without an error, with the determinant zero and with a NaN and an
  infinity among the gradients.
\<close>

theorem isomap_degenerate_counterexample:
  "\<not> isl (isomap p1_element degenerate_nodes quad2_nodes) \<and>
   get (snd (snd (projr (isomap p1_element degenerate_nodes quad2_nodes)))) [0, 0] = Fin 0 \<and>
   get (fst (snd (projr (isomap p1_element degenerate_nodes quad2_nodes)))) [0, 0, 0, 0] = NaN \<and>
   get (fst (snd (projr (isomap p1_element degenerate_nodes quad2_nodes)))) [1, 0, 0, 0] = PInf"
  using isomap_degenerate by auto

text \<open>
  Claim C3, amended. Where the Jacobian determinant is zero, \<open>isomap\<close> neither detects nor
  reports it: the call returns as on every other input, the zero stands among the returned
  determinants, and every pushed-forward gradient at that position is the result of the
  division by zero, a NaN or an infinity.
\<close>

theorem isomap_zero_determinant:
  assumes "index_last cc 0 = Inr r" and "index_last cc 1 = Inr s"
    and "shape_function e r s = Inr (vals, grad)"
    and "shape grad = [2, n, D]"
    and "shape nds = bs @ [D, 2]"
  shows "\<exists>pf det. isomap e nds cc = Inr (vals, pf, det) \<and>
           (\<forall>b q k. valid_idx b bs \<and> q < n \<and> k < D \<and> get det (b @ [q]) = Fin 0 \<longrightarrow>
              \<not> is_finite (get pf (0 # b @ [q, k])) \<and>
              \<not> is_finite (get pf (1 # b @ [q, k])))"
proof -
  from isomap_core [OF assms] obtain pf det where
    run: "isomap e nds cc = Inr (vals, pf, det)"
    and gx: "\<And>b q k. valid_idx b bs \<Longrightarrow> q < n \<Longrightarrow> k < D \<Longrightarrow> get pf (0 # b @ [q, k]) =
                fdiv (fsub (fmul (jacobian_entry grad nds D 1 1 b q) (get grad [0, q, k]))
                           (fmul (jacobian_entry grad nds D 0 1 b q) (get grad [1, q, k])))
                     (get det (b @ [q]))"
    and gy: "\<And>b q k. valid_idx b bs \<Longrightarrow> q < n \<Longrightarrow> k < D \<Longrightarrow> get pf (1 # b @ [q, k]) =
                fdiv (fadd (fmul (fneg (jacobian_entry grad nds D 1 0 b q)) (get grad [0, q, k]))
                           (fmul (jacobian_entry grad nds D 0 0 b q) (get grad [1, q, k])))
                     (get det (b @ [q]))"
    by blast
  have "\<not> is_finite (get pf (0 # b @ [q, k])) \<and> \<not> is_finite (get pf (1 # b @ [q, k]))"
    if "valid_idx b bs" "q < n" "k < D" "get det (b @ [q]) = Fin 0" for b q k
    using gx [OF that(1,2,3)] gy [OF that(1,2,3)] that(4)
    by (simp only: fdiv_zero_not_finite simp_thms)
  then show ?thesis using run by blast
qed

theorem isomap_zero_determinant_witness:
  "index_last quad2_nodes 0 = Inr quad2_r \<and> index_last quad2_nodes 1 = Inr quad2_s \<and>
   shape_function p1_element quad2_r quad2_s = Inr (fst p1_at_quad2, snd p1_at_quad2) \<and>
   shape (snd p1_at_quad2) = [2, 3, 3] \<and> shape degenerate_nodes = [1] @ [3, 2] \<and>
   (\<exists>pf det. isomap p1_element degenerate_nodes quad2_nodes = Inr (fst p1_at_quad2, pf, det) \<and>
      valid_idx [0] [1] \<and> get det ([0] @ [0]) = Fin 0 \<and>
      \<not> is_finite (get pf (0 # [0] @ [0, 0])) \<and> \<not> is_finite (get pf (1 # [0] @ [0, 0])))"
proof -
  from isomap_degenerate obtain pf det where
    run: "isomap p1_element degenerate_nodes quad2_nodes = Inr (fst p1_at_quad2, pf, det)"
    and d0: "get det [0, 0] = Fin 0"
    by blast
  from isomap_zero_determinant [OF quad2_r_eq quad2_s_eq p1_element_at_quad2 p1_grad_shape
                                   degenerate_nodes_shape] run
  have z: "\<And>b q k. valid_idx b [1] \<Longrightarrow> q < 3 \<Longrightarrow> k < 3 \<Longrightarrow> get det (b @ [q]) = Fin 0 \<Longrightarrow>
             \<not> is_finite (get pf (0 # b @ [q, k])) \<and> \<not> is_finite (get pf (1 # b @ [q, k]))"
    by auto
  have "\<not> is_finite (get pf (0 # [0] @ [0, 0])) \<and> \<not> is_finite (get pf (1 # [0] @ [0, 0]))"
    using z [of "[0]" 0 0] d0 by simp
  then show ?thesis
    using quad2_r_eq quad2_s_eq p1_element_at_quad2 p1_grad_shape degenerate_nodes_shape run d0
    by auto
qed

section \<open>The quadrature weights of the convection assembler\<close>

lemma indices_of_set: "set (indices_of s) = {idx. valid_idx idx s}"
proof (induction s)
  case Nil
  then show ?case by (auto simp: valid_idx_def)
next
  case (Cons n s)
  then show ?case
    by (auto simp: valid_idx_def list_all2_Cons2)
qed

lemma gather_ex:
  assumes "shape params = N # s"
    and "\<And>idx. valid_idx idx (shape ind) \<Longrightarrow> 0 \<le> get ind idx \<and> get ind idx < int N"
  shows "\<exists>t. gather params ind = Inr t \<and> shape t = shape ind @ s \<and>
           (\<forall>idx. get t idx = get params (nat (get ind (take (length (shape ind)) idx))
                                         # drop (length (shape ind)) idx))"
proof -
  have "list_all (\<lambda>idx. 0 \<le> get ind idx \<and> get ind idx < int N) (indices_of (shape ind))"
    using assms(2) by (simp add: list_all_iff indices_of_set)
  then show ?thesis
    using assms(1) by (simp add: gather_def)
qed

lemma bidx_Nil [simp]: "bidx [] idx = []"
  by (simp add: bidx_def)

lemma bidx_last1:
  assumes "q < Q"
  shows "bidx [Q] (b @ [q]) = [q]"
  using bidx_valid [of "[q]" "[Q]" b] assms by simp

lemma bidx_snoc:
  assumes "valid_idx b bs" and "q < n"
  shows "bidx (bs @ [n]) (b @ [q]) = b @ [q]"
proof -
  have "valid_idx (b @ [q]) (bs @ [n])"
    using assms by (simp add: valid_idx_append valid_idx_length)
  from bidx_valid [OF this, of "[]"] show ?thesis by simp
qed

lemma wxarea_core:
  assumes en: "gather (nodes m) (elements m) = Inr en"
    and qw: "get_quadrature_nodes_and_weights x e = Inr (wts, qn)"
    and iso: "isomap e en qn = Inr (vals, pf, det)"
    and d: "shape det = bs @ [Q]" and w: "shape wts = [Q]"
  shows "\<exists>w. local_convection_wxarea x m e = Inr w \<and> shape w = bs @ [Q] \<and>
           (\<forall>b q. valid_idx b bs \<and> q < Q \<longrightarrow>
              get w (b @ [q]) = fdiv (fmul (get det (b @ [q])) (get wts [q])) (Fin 2))"
proof -
  have "broadcast_shape (shape det) (shape wts) = Some (bs @ [Q])"
    by (simp add: d w)
  from binop_ex [OF this, of fmul] obtain p where
    p: "tmul det wts = Inr p" "shape p = bs @ [Q]"
       "\<And>idx. get p idx = fmul (get det (bidx (shape det) idx)) (get wts (bidx (shape wts) idx))"
    unfolding tmul_def by blast
  have "broadcast_shape (shape p) (shape (scalar (Fin 2))) = Some (bs @ [Q])"
    by (simp add: p(2) scalar_def)
  from binop_ex [OF this, of fdiv] obtain t where
    t: "tdiv p (scalar (Fin 2)) = Inr t" "shape t = bs @ [Q]"
       "\<And>idx. get t idx = fdiv (get p (bidx (shape p) idx))
                               (get (scalar (Fin 2)) (bidx (shape (scalar (Fin 2))) idx))"
    unfolding tdiv_def by blast
  have run: "local_convection_wxarea x m e = Inr t"
    by (simp only: local_convection_wxarea_def en qw iso p(1) t(1) bindE_Inr prod.case)
  have "get t (b @ [q]) = fdiv (fmul (get det (b @ [q])) (get wts [q])) (Fin 2)"
    if "valid_idx b bs" "q < Q" for b q
    using bidx_snoc [OF that] bidx_last1 [OF that(2), of b]
    by (simp add: t(3) p(2,3) d w scalar_def)
  then show ?thesis using run t(2) by blast
qed

lemma unit_element_nodes_eq:
  "gather (nodes unit_mesh) (elements unit_mesh) = Inr unit_element_nodes"
  by (simp add: unit_element_nodes_def gather_def unit_mesh_def of_list2_def upt3)

lemma reversed_element_nodes_eq:
  "gather (nodes reversed_mesh) (elements reversed_mesh) = Inr reversed_element_nodes"
  by (simp add: reversed_element_nodes_def gather_def reversed_mesh_def of_list2_def upt3)

lemma unit_element_nodes_shape: "shape unit_element_nodes = [1] @ [3, 2]"
  by (simp add: unit_element_nodes_def gather_def unit_mesh_def of_list2_def upt3)

lemma reversed_element_nodes_shape: "shape reversed_element_nodes = [1] @ [3, 2]"
  by (simp add: reversed_element_nodes_def gather_def reversed_mesh_def of_list2_def upt3)

lemma unit_element_nodes_get:
  "get unit_element_nodes [0, k, c] =
     [[Fin 0, Fin 0], [Fin 1, Fin 0], [Fin 0, Fin 1]] ! nat ([0, 1, 2] ! k) ! c"
  by (simp add: unit_element_nodes_def gather_def unit_mesh_def of_list2_def upt3)

lemma reversed_element_nodes_get:
  "get reversed_element_nodes [0, k, c] =
     [[Fin 0, Fin 0], [Fin 1, Fin 0], [Fin 0, Fin 1]] ! nat ([0, 2, 1] ! k) ! c"
  by (simp add: reversed_element_nodes_def gather_def reversed_mesh_def of_list2_def upt3)


lemma p1_isomap_det:
  assumes nd: "shape nds = [1] @ [3, 2]"
  shows "\<exists>pf det. isomap p1_element nds quad2_nodes = Inr (fst p1_at_quad2, pf, det) \<and>
           shape det = [1] @ [3] \<and>
           (\<forall>q. q < 3 \<longrightarrow> get det [0, q] =
              fsub (fmul (jacobian_entry (snd p1_at_quad2) nds 3 0 0 [0] q)
                         (jacobian_entry (snd p1_at_quad2) nds 3 1 1 [0] q))
                   (fmul (jacobian_entry (snd p1_at_quad2) nds 3 0 1 [0] q)
                         (jacobian_entry (snd p1_at_quad2) nds 3 1 0 [0] q)))"
proof -
  from isomap_core [OF quad2_r_eq quad2_s_eq p1_element_at_quad2 p1_grad_shape nd]
  obtain pf det where
    run: "isomap p1_element nds quad2_nodes = Inr (fst p1_at_quad2, pf, det)"
    and sh: "shape det = [1] @ [3]"
    and d: "\<And>b q. valid_idx b [1] \<Longrightarrow> q < 3 \<Longrightarrow> get det (b @ [q]) =
                fsub (fmul (jacobian_entry (snd p1_at_quad2) nds 3 0 0 b q)
                           (jacobian_entry (snd p1_at_quad2) nds 3 1 1 b q))
                     (fmul (jacobian_entry (snd p1_at_quad2) nds 3 0 1 b q)
                           (jacobian_entry (snd p1_at_quad2) nds 3 1 0 b q))"
    by blast
  have "get det [0, q] =
          fsub (fmul (jacobian_entry (snd p1_at_quad2) nds 3 0 0 [0] q)
                     (jacobian_entry (snd p1_at_quad2) nds 3 1 1 [0] q))
               (fmul (jacobian_entry (snd p1_at_quad2) nds 3 0 1 [0] q)
                     (jacobian_entry (snd p1_at_quad2) nds 3 1 0 [0] q))"
    if "q < 3" for q
    using d [of "[0]" q] that by simp
  then show ?thesis using run sh by blast
qed

lemma unit_isomap_eq:
  "isomap p1_element unit_element_nodes quad2_nodes =
     Inr (fst p1_at_quad2, fst (snd unit_isomap), snd (snd unit_isomap))"
  "shape (snd (snd unit_isomap)) = [1] @ [3]"
  "q < 3 \<Longrightarrow> get (snd (snd unit_isomap)) [0, q] = Fin 1"
proof -
  from p1_isomap_det [OF unit_element_nodes_shape] obtain pf det where
    run: "isomap p1_element unit_element_nodes quad2_nodes = Inr (fst p1_at_quad2, pf, det)"
    and sh: "shape det = [1] @ [3]"
    and d: "\<And>q. q < 3 \<Longrightarrow> get det [0, q] =
              fsub (fmul (jacobian_entry (snd p1_at_quad2) unit_element_nodes 3 0 0 [0] q)
                         (jacobian_entry (snd p1_at_quad2) unit_element_nodes 3 1 1 [0] q))
                   (fmul (jacobian_entry (snd p1_at_quad2) unit_element_nodes 3 0 1 [0] q)
                         (jacobian_entry (snd p1_at_quad2) unit_element_nodes 3 1 0 [0] q))"
    by blast
  have u: "unit_isomap = (fst p1_at_quad2, pf, det)"
    by (simp add: unit_isomap_def run)
  show "isomap p1_element unit_element_nodes quad2_nodes =
          Inr (fst p1_at_quad2, fst (snd unit_isomap), snd (snd unit_isomap))"
    by (simp add: u run)
  show "shape (snd (snd unit_isomap)) = [1] @ [3]"
    by (simp add: u sh)
  show "get (snd (snd unit_isomap)) [0, q] = Fin 1" if "q < 3"
    using d [OF that]
    by (simp add: u jacobian_entry_def fsum_def upt3 p1_grad_get unit_element_nodes_get fsub_def)
qed

lemma reversed_isomap_eq:
  "isomap p1_element reversed_element_nodes quad2_nodes =
     Inr (fst p1_at_quad2, fst (snd reversed_isomap), snd (snd reversed_isomap))"
  "shape (snd (snd reversed_isomap)) = [1] @ [3]"
  "q < 3 \<Longrightarrow> get (snd (snd reversed_isomap)) [0, q] = Fin (- 1)"
proof -
  from p1_isomap_det [OF reversed_element_nodes_shape] obtain pf det where
    run: "isomap p1_element reversed_element_nodes quad2_nodes = Inr (fst p1_at_quad2, pf, det)"
    and sh: "shape det = [1] @ [3]"
    and d: "\<And>q. q < 3 \<Longrightarrow> get det [0, q] =
              fsub (fmul (jacobian_entry (snd p1_at_quad2) reversed_element_nodes 3 0 0 [0] q)
                         (jacobian_entry (snd p1_at_quad2) reversed_element_nodes 3 1 1 [0] q))
                   (fmul (jacobian_entry (snd p1_at_quad2) reversed_element_nodes 3 0 1 [0] q)
                         (jacobian_entry (snd p1_at_quad2) reversed_element_nodes 3 1 0 [0] q))"
    by blast
  have u: "reversed_isomap = (fst p1_at_quad2, pf, det)"
    by (simp add: reversed_isomap_def run)
  show "isomap p1_element reversed_element_nodes quad2_nodes =
          Inr (fst p1_at_quad2, fst (snd reversed_isomap), snd (snd reversed_isomap))"
    by (simp add: u run)
  show "shape (snd (snd reversed_isomap)) = [1] @ [3]"
    by (simp add: u sh)
  show "get (snd (snd reversed_isomap)) [0, q] = Fin (- 1)" if "q < 3"
    using d [OF that]
    by (simp add: u jacobian_entry_def fsum_def upt3 p1_grad_get reversed_element_nodes_get
                  fsub_def)
qed

lemma quad2_table:
  "get_quadrature_nodes_and_weights ext_example p1_element = Inr (quad2_weights, quad2_nodes)"
  by (simp add: get_quadrature_nodes_and_weights_def ext_example_def p1_element_def)

lemma quad2_weights_shape: "shape quad2_weights = [3]"
  by (simp add: quad2_weights_def of_list1_def)

lemma quad2_weights_get: "get quad2_weights [0] = Fin (1 / 3)"
  by (simp add: quad2_weights_def of_list1_def)

lemma unit_wxarea:
  "\<exists>w. local_convection_wxarea ext_example unit_mesh p1_element = Inr w \<and>
        get w [0, 0] = Fin (1 / 6)"
proof -
  from wxarea_core [OF unit_element_nodes_eq quad2_table unit_isomap_eq(1,2) quad2_weights_shape]
  obtain w where
    w: "local_convection_wxarea ext_example unit_mesh p1_element = Inr w"
       "\<And>b q. valid_idx b [1] \<Longrightarrow> q < 3 \<Longrightarrow>
          get w (b @ [q]) = fdiv (fmul (get (snd (snd unit_isomap)) (b @ [q]))
                                       (get quad2_weights [q])) (Fin 2)"
    by blast
  have "get w [0, 0] = Fin (1 / 6)"
    using w(2) [of "[0]" 0] by (simp add: unit_isomap_eq(3) quad2_weights_get)
  then show ?thesis using w(1) by blast
qed

lemma reversed_wxarea:
  "\<exists>w. local_convection_wxarea ext_example reversed_mesh p1_element = Inr w \<and>
        get w [0, 0] = Fin (- (1 / 6))"
proof -
  from wxarea_core [OF reversed_element_nodes_eq quad2_table reversed_isomap_eq(1,2)
                       quad2_weights_shape]
  obtain w where
    w: "local_convection_wxarea ext_example reversed_mesh p1_element = Inr w"
       "\<And>b q. valid_idx b [1] \<Longrightarrow> q < 3 \<Longrightarrow>
          get w (b @ [q]) = fdiv (fmul (get (snd (snd reversed_isomap)) (b @ [q]))
                                       (get quad2_weights [q])) (Fin 2)"
    by blast
  have "get w [0, 0] = Fin (- (1 / 6))"
    using w(2) [of "[0]" 0] by (simp add: reversed_isomap_eq(3) quad2_weights_get)
  then show ?thesis using w(1) by blast
qed

text \<open>
  Claim C2, as the specification states it, fails on the source: on the canonical
  triangle with its nodes listed clockwise the determinant is \<open>-1\<close> and the combined weight
  is \<open>-1/6\<close>, where the absolute value would give \<open>1/6\<close>, the weight of the same triangle
  with its nodes listed counterclockwise.
\<close>

theorem wxarea_reversed_counterexample:
  "\<not> isl (local_convection_wxarea ext_example reversed_mesh p1_element) \<and>
   get (snd (snd reversed_isomap)) [0, 0] = Fin (- 1) \<and>
   get (projr (local_convection_wxarea ext_example reversed_mesh p1_element)) [0, 0]
     = Fin (- (1 / 6)) \<and>
   fdiv (fmul (fabs (get (snd (snd reversed_isomap)) [0, 0])) (get quad2_weights [0])) (Fin 2)
     = Fin (1 / 6) \<and>
   get (projr (local_convection_wxarea ext_example unit_mesh p1_element)) [0, 0] = Fin (1 / 6)"
  using unit_wxarea reversed_wxarea
  by (auto simp: reversed_isomap_eq(3) quad2_weights_get)

text \<open>
  Claim C2, amended. The convection assembler forms the combined quadrature weight as
  \<open>det(J) \<cdot> quadrature_weight / 2\<close> from the signed Jacobian determinant that \<open>isomap\<close>
  returns, at every element and quadrature node; no absolute value is taken.
\<close>

theorem wxarea_signed:
  assumes "gather (nodes m) (elements m) = Inr en"
    and "get_quadrature_nodes_and_weights x e = Inr (wts, qn)"
    and "isomap e en qn = Inr (vals, pf, det)"
    and "shape det = bs @ [Q]" and "shape wts = [Q]"
  shows "\<exists>w. local_convection_wxarea x m e = Inr w \<and> shape w = bs @ [Q] \<and>
           (\<forall>b q. valid_idx b bs \<and> q < Q \<longrightarrow>
              get w (b @ [q]) = fdiv (fmul (get det (b @ [q])) (get wts [q])) (Fin 2))"
  using assms by (rule wxarea_core)

theorem wxarea_signed_witness:
  "gather (nodes reversed_mesh) (elements reversed_mesh) = Inr reversed_element_nodes \<and>
   get_quadrature_nodes_and_weights ext_example p1_element = Inr (quad2_weights, quad2_nodes) \<and>
   isomap p1_element reversed_element_nodes quad2_nodes =
     Inr (fst p1_at_quad2, fst (snd reversed_isomap), snd (snd reversed_isomap)) \<and>
   shape (snd (snd reversed_isomap)) = [1] @ [3] \<and> shape quad2_weights = [3] \<and>
   (\<exists>w. local_convection_wxarea ext_example reversed_mesh p1_element = Inr w \<and>
      shape w = [1] @ [3] \<and> valid_idx [0] [1] \<and>
      get w ([0] @ [2]) = fdiv (fmul (get (snd (snd reversed_isomap)) ([0] @ [2]))
                                     (get quad2_weights [2])) (Fin 2) \<and>
      get w ([0] @ [2]) = Fin (- (1 / 6)))"
proof -
  from wxarea_signed [OF reversed_element_nodes_eq quad2_table reversed_isomap_eq(1,2)
                         quad2_weights_shape]
  obtain w where
    w: "local_convection_wxarea ext_example reversed_mesh p1_element = Inr w"
       "shape w = [1] @ [3]"
       "\<And>b q. valid_idx b [1] \<Longrightarrow> q < 3 \<Longrightarrow>
          get w (b @ [q]) = fdiv (fmul (get (snd (snd reversed_isomap)) (b @ [q]))
                                       (get quad2_weights [q])) (Fin 2)"
    by blast
  have g: "get w ([0] @ [2]) = fdiv (fmul (get (snd (snd reversed_isomap)) ([0] @ [2]))
                                          (get quad2_weights [2])) (Fin 2)"
    using w(3) [of "[0]" 2] by simp
  have v: "get w ([0] @ [2]) = Fin (- (1 / 6))"
    using g reversed_isomap_eq(3) [of 2] by (simp add: quad2_weights_def of_list1_def)
  show ?thesis
    using reversed_element_nodes_eq quad2_table reversed_isomap_eq(1,2) quad2_weights_shape
          w(1,2) g v
    by auto
qed

text \<open>
  Claim C1. The specification has \<open>assemble_local_convection_matrix\<close> return the local
  convection matrix, a tensor. The source's function body ends after the quadrature
  weights are formed: no call returns a tensor, and on the canonical triangle with linear
  shape functions the call returns \<open>None\<close>.
\<close>

theorem assemble_local_convection_matrix_returns_none:
  "assemble_local_convection_matrix x transport_vector_field m e \<noteq> Inr (Some C) \<and>
   assemble_local_convection_matrix ext_example transport_vector_field unit_mesh p1_element
     = Inr None"
proof -
  have "assemble_local_convection_matrix x transport_vector_field m e \<noteq> Inr (Some C)"
    by (cases "local_convection_wxarea x m e")
       (simp_all add: assemble_local_convection_matrix_def)
  moreover from unit_wxarea
  have "assemble_local_convection_matrix ext_example transport_vector_field unit_mesh p1_element
          = Inr None"
    by (auto simp: assemble_local_convection_matrix_def)
  ultimately show ?thesis by simp
qed

section \<open>Quadrature nodes on the mesh and the orientation of elements\<close>

lemma bidx3_one_first:
  assumes "valid_idx b es" and "k < D" and "c < 2"
  shows "bidx (es @ [Suc 0, D, 2]) (b @ [q, k, c]) = b @ [0, k, c]"
proof -
  have l: "length b = length es" using assms(1) by (rule valid_idx_length)
  have "bidx (es @ [Suc 0, D, 2]) (b @ [q, k, c]) = bidx es b @ bidx [Suc 0, D, 2] [q, k, c]"
    using l by (simp add: bidx_append)
  moreover have "bidx es b = b" using bidx_valid [OF assms(1), of "[]"] by simp
  moreover have "bidx [Suc 0, D, 2] [q, k, c] = [0, k, c]"
    using assms(2,3) by (simp add: bidx_def)
  ultimately show ?thesis by simp
qed

lemma bidx3_one_last:
  assumes "q < Q" and "k < D"
  shows "bidx [Q, D, Suc 0] (b @ [q, k, c]) = [q, k, 0]"
  using assms by (simp add: bidx_def)

lemma get_quadrature_nodes_core:
  assumes gq: "gauss_quad_nodes_and_weights x (quadrature_order e) (dtype e) = Inr (wts, qn)"
    and r: "index_last qn 0 = Inr r" and s: "index_last qn 1 = Inr s"
    and sf: "shape_function e r s = Inr (vals, grads)"
    and v: "shape vals = [Q, D]"
    and n: "shape (nodes m) = [N, 2]"
    and el: "shape (elements m) = es @ [D]"
    and valid: "\<And>idx. valid_idx idx (es @ [D]) \<Longrightarrow>
                  0 \<le> get (elements m) idx \<and> get (elements m) idx < int N"
  shows "\<exists>t. get_quadrature_nodes x e m = Inr t \<and> shape t = es @ [Q, 2] \<and>
           (\<forall>b q c. valid_idx b es \<and> q < Q \<and> c < 2 \<longrightarrow>
              get t (b @ [q, c]) =
                fsum (map (\<lambda>k. fmul (get (nodes m) [nat (get (elements m) (b @ [k])), c])
                                     (get vals [q, k])) [0..<D]))"
proof -
  from gather_ex [OF n, of "elements m"] valid el obtain en where
    en: "gather (nodes m) (elements m) = Inr en" "shape en = es @ [D, 2]"
        "\<And>idx. get en idx = get (nodes m) (nat (get (elements m) (take (Suc (length es)) idx))
                                           # drop (Suc (length es)) idx)"
    by auto
  define a where "a = Tensor (es @ [1, D, 2])
                        (\<lambda>idx. get en (take (length idx - 3) idx @ drop (length idx - 2) idx))"
  have ha: "newaxis_antepenult en = Inr a"
    by (simp add: newaxis_antepenult_def en(2) a_def)
  have ga: "get a (b @ [0, k, c]) = get (nodes m) [nat (get (elements m) (b @ [k])), c]"
    if "valid_idx b es" for b k c
    using valid_idx_length [OF that] by (simp add: a_def en(3))
  have "broadcast_shape (shape a) (shape (newaxis_last vals)) = Some (es @ [Q, D, 2])"
    by (simp add: a_def newaxis_last_def v)
  from binop_ex [OF this, of fmul] obtain p where
    p: "tmul a (newaxis_last vals) = Inr p" "shape p = es @ [Q, D, 2]"
       "\<And>idx. get p idx = fmul (get a (bidx (shape a) idx))
                               (get (newaxis_last vals) (bidx (shape (newaxis_last vals)) idx))"
    unfolding tmul_def by blast
  have gp: "get p (b @ [q, k, c]) =
              fmul (get (nodes m) [nat (get (elements m) (b @ [k])), c]) (get vals [q, k])"
    if "valid_idx b es" "q < Q" "k < D" "c < 2" for b q k c
  proof -
    have "bidx (es @ [Suc 0, D, 2]) (b @ [q, k, c]) = b @ [0, k, c]"
      using that by (intro bidx3_one_first) auto
    moreover have "bidx [Q, D, Suc 0] (b @ [q, k, c]) = [q, k, 0]"
      using that by (intro bidx3_one_last) auto
    ultimately show ?thesis
      using ga [OF that(1), of k c] by (simp add: p(3) a_def newaxis_last_def v)
  qed
  define t where "t = Tensor (es @ [Q, 2])
                        (\<lambda>idx. fsum (map (\<lambda>k. get p (butlast idx @ [k, last idx])) [0..<D]))"
  have ht: "reduce_sum_penult p = Inr t"
    by (simp add: reduce_sum_penult_def p(2) t_def butlast_append)
  have gt: "get t (b @ [q, c]) =
              fsum (map (\<lambda>k. fmul (get (nodes m) [nat (get (elements m) (b @ [k])), c])
                                   (get vals [q, k])) [0..<D])"
    if "valid_idx b es" "q < Q" "c < 2" for b q c
  proof -
    have "map (\<lambda>k. get p (b @ [q, k, c])) [0..<D] =
          map (\<lambda>k. fmul (get (nodes m) [nat (get (elements m) (b @ [k])), c])
                         (get vals [q, k])) [0..<D]"
      using gp [OF that(1,2) _ that(3)] by (intro map_cong) auto
    moreover have "last (b @ [q, c]) = c" "butlast (b @ [q, c]) @ [k, c] = b @ [q, k, c]" for k
      by simp_all
    ultimately show ?thesis
      by (simp only: t_def tensor.sel)
  qed
  have run: "get_quadrature_nodes x e m = Inr t"
    by (simp only: get_quadrature_nodes_def gq en(1) r s sf ha p(1) ht bindE_Inr prod.case)
  show ?thesis using run gt by (auto simp: t_def)
qed


lemma fmul_commute: "fmul a b = fmul b a"
  by (cases a; cases b) (simp_all add: mult.commute)

lemma valid_idx_2: "valid_idx idx [E, D] \<longleftrightarrow> (\<exists>i k. idx = [i, k] \<and> i < E \<and> k < D)"
  by (auto simp: valid_idx_def list_all2_Cons2)

text \<open>
  Claim C7. For a mesh whose elements index validly into its nodes, \<open>get_quadrature_nodes\<close>
  returns a tensor of shape \<open>[n_elements, n_quad_nodes, 2]\<close> that holds, for each element
  and each canonical quadrature node, the sum over \<open>k\<close> of the \<open>k\<close>-th shape value at the
  quadrature node times the \<open>k\<close>-th gathered node of the element.
\<close>

theorem get_quadrature_nodes_weighted_sum:
  assumes "gauss_quad_nodes_and_weights x (quadrature_order e) (dtype e) = Inr (wts, qn)"
    and "index_last qn 0 = Inr r" and "index_last qn 1 = Inr s"
    and "shape_function e r s = Inr (vals, grads)"
    and "shape vals = [Q, D]"
    and "shape (nodes m) = [N, 2]"
    and "shape (elements m) = [E, D]"
    and "\<forall>i k. i < E \<and> k < D \<longrightarrow>
           0 \<le> get (elements m) [i, k] \<and> get (elements m) [i, k] < int N"
  shows "\<exists>t. get_quadrature_nodes x e m = Inr t \<and> shape t = [E, Q, 2] \<and>
           (\<forall>i q c. i < E \<and> q < Q \<and> c < 2 \<longrightarrow>
              get t [i, q, c] =
                fsum (map (\<lambda>k. fmul (get vals [q, k])
                                     (get (nodes m) [nat (get (elements m) [i, k]), c]))
                          [0..<D]))"
proof -
  have el: "shape (elements m) = [E] @ [D]" using assms(7) by simp
  have valid: "0 \<le> get (elements m) idx \<and> get (elements m) idx < int N"
    if "valid_idx idx ([E] @ [D])" for idx
    using that assms(8) by (auto simp: valid_idx_2)
  from get_quadrature_nodes_core [OF assms(1-6) el valid] obtain t where
    t: "get_quadrature_nodes x e m = Inr t" "shape t = [E] @ [Q, 2]"
       "\<And>b q c. valid_idx b [E] \<Longrightarrow> q < Q \<Longrightarrow> c < 2 \<Longrightarrow>
          get t (b @ [q, c]) =
            fsum (map (\<lambda>k. fmul (get (nodes m) [nat (get (elements m) (b @ [k])), c])
                                 (get vals [q, k])) [0..<D])"
    by blast
  have "get t [i, q, c] =
          fsum (map (\<lambda>k. fmul (get vals [q, k])
                               (get (nodes m) [nat (get (elements m) [i, k]), c])) [0..<D])"
    if "i < E" "q < Q" "c < 2" for i q c
  proof -
    have "get t ([i] @ [q, c]) =
            fsum (map (\<lambda>k. fmul (get (nodes m) [nat (get (elements m) ([i] @ [k])), c])
                                 (get vals [q, k])) [0..<D])"
      using that by (intro t(3)) simp_all
    moreover have "fmul (get (nodes m) [nat (get (elements m) ([i] @ [k])), c]) (get vals [q, k])
                   = fmul (get vals [q, k]) (get (nodes m) [nat (get (elements m) [i, k]), c])"
      for k
      by (simp add: fmul_commute)
    ultimately show ?thesis by simp
  qed
  then show ?thesis using t(1,2) by auto
qed

lemma p1_vals_shape: "shape (fst p1_at_quad2) = [3, 3]"
  by (simp add: p1_at_quad2_def p1_shape_fn_spec_def quad2_r_def quad2_s_def)

lemma p1_vals_get:
  "q < 3 \<Longrightarrow> get (fst p1_at_quad2) [q, k] =
     [fsub (fsub (Fin 1) (get quad2_nodes [q, 0])) (get quad2_nodes [q, 1]),
      get quad2_nodes [q, 0], get quad2_nodes [q, 1]] ! k"
  by (simp add: p1_at_quad2_def p1_shape_fn_spec_def quad2_r_def quad2_s_def bidx_def Let_def)

lemma ext_example_gauss:
  "gauss_quad_nodes_and_weights ext_example (quadrature_order p1_element) (dtype p1_element)
     = Inr (quad2_weights, quad2_nodes)"
  by (simp add: ext_example_def p1_element_def)

theorem get_quadrature_nodes_weighted_sum_witness:
  "gauss_quad_nodes_and_weights ext_example (quadrature_order p1_element) (dtype p1_element)
     = Inr (quad2_weights, quad2_nodes) \<and>
   index_last quad2_nodes 0 = Inr quad2_r \<and> index_last quad2_nodes 1 = Inr quad2_s \<and>
   shape_function p1_element quad2_r quad2_s = Inr (fst p1_at_quad2, snd p1_at_quad2) \<and>
   shape (fst p1_at_quad2) = [3, 3] \<and> shape (nodes unit_mesh) = [3, 2] \<and>
   shape (elements unit_mesh) = [1, 3] \<and>
   map (\<lambda>k. get (elements unit_mesh) [0, k]) [0, 1, 2] = [0, 1, 2] \<and>
   (\<exists>t. get_quadrature_nodes ext_example p1_element unit_mesh = Inr t \<and> shape t = [1, 3, 2] \<and>
      get t [0, 1, 0] = Fin (2 / 3) \<and> get t [0, 1, 1] = Fin (1 / 6))"
proof -
  have n: "shape (nodes unit_mesh) = [3, 2]"
    by (simp add: unit_mesh_def of_list2_def)
  have el: "shape (elements unit_mesh) = [1, 3]"
    by (simp add: unit_mesh_def of_list2_def)
  have g: "map (\<lambda>k. get (elements unit_mesh) [0, k]) [0, 1, 2] = [0, 1, 2]"
    by (simp add: unit_mesh_def of_list2_def)
  have valid: "\<forall>i k. i < 1 \<and> k < 3 \<longrightarrow>
                 0 \<le> get (elements unit_mesh) [i, k] \<and> get (elements unit_mesh) [i, k] < int 3"
  proof (intro allI impI)
    fix i k :: nat
    assume "i < 1 \<and> k < 3"
    then have "i = 0" and "k = 0 \<or> k = 1 \<or> k = 2" by auto
    then show "0 \<le> get (elements unit_mesh) [i, k] \<and> get (elements unit_mesh) [i, k] < int 3"
      by (auto simp: unit_mesh_def of_list2_def)
  qed
  from get_quadrature_nodes_weighted_sum
         [OF ext_example_gauss quad2_r_eq quad2_s_eq p1_element_at_quad2 p1_vals_shape n el valid]
  obtain t where
    t: "get_quadrature_nodes ext_example p1_element unit_mesh = Inr t" "shape t = [1, 3, 2]"
       "\<And>i q c. i < 1 \<Longrightarrow> q < 3 \<Longrightarrow> c < 2 \<Longrightarrow>
          get t [i, q, c] =
            fsum (map (\<lambda>k. fmul (get (fst p1_at_quad2) [q, k])
                                 (get (nodes unit_mesh) [nat (get (elements unit_mesh) [i, k]), c]))
                      [0..<3])"
    by blast
  have v0: "get t [0, 1, 0] = Fin (2 / 3)"
    using t(3) [of 0 1 0]
    by (simp add: fsum_def upt3 p1_vals_get unit_mesh_def quad2_nodes_def of_list2_def fsub_def)
  have v1: "get t [0, 1, 1] = Fin (1 / 6)"
    using t(3) [of 0 1 1]
    by (simp add: fsum_def upt3 p1_vals_get unit_mesh_def quad2_nodes_def of_list2_def fsub_def)
  show ?thesis
    using ext_example_gauss quad2_r_eq quad2_s_eq p1_element_at_quad2 p1_vals_shape n el g
          t(1,2) v0 v1
    by blast
qed

lemma orientate_six:
  assumes d: "element_dim e = 6" and el: "shape (elements m) = es @ [6]"
  shows "\<exists>t. orientate_element_indices e m = Inr t \<and> shape t = es @ [6] \<and>
           (\<forall>b j. j < 6 \<longrightarrow> get t (b @ [j]) = get (elements m) (b @ [[0, 5, 1, 3, 2, 4] ! j]))"
proof -
  define col where "col i = Tensor es (\<lambda>idx. get (elements m) (idx @ [i]))" for i :: nat
  have c: "index_last (elements m) i = Inr (col i)" if "i < 6" for i
    using that by (simp add: index_last_def el col_def butlast_append)
  define t where
    "t = Tensor (es @ [6])
           (\<lambda>idx. pick_last (newaxis_last (col 0))
                     [newaxis_last (col 5), newaxis_last (col 1), newaxis_last (col 3),
                      newaxis_last (col 2), newaxis_last (col 4)] (butlast idx) (last idx))"
  have cat: "concat_last [newaxis_last (col 0), newaxis_last (col 5), newaxis_last (col 1),
                          newaxis_last (col 3), newaxis_last (col 2), newaxis_last (col 4)] = Inr t"
    by (simp add: concat_last_def newaxis_last_def col_def t_def)
  have run: "orientate_element_indices e m = Inr t"
    using d by (simp add: orientate_element_indices_def c cat [simplified])
  have "get t (b @ [j]) = get (elements m) (b @ [[0, 5, 1, 3, 2, 4] ! j])" if "j < 6" for b j
  proof -
    from that have "j = 0 \<or> j = 1 \<or> j = 2 \<or> j = 3 \<or> j = 4 \<or> j = 5" by auto
    then show ?thesis
      by (auto simp: t_def newaxis_last_def col_def)
  qed
  then show ?thesis using run by (auto simp: t_def)
qed

text \<open>
  Claim C6. \<open>orientate_element_indices\<close> returns the element tensor of the mesh unchanged
  when the element dimension is 3; when it is 6, it returns for every element the indices
  at the positions 0, 5, 1, 3, 2, 4, in this order; for every other element dimension it
  raises \<open>NotImplementedError\<close>.
\<close>

theorem orientate_element_indices_cases:
  "(element_dim e = 3 \<longrightarrow> orientate_element_indices e m = Inr (elements m)) \<and>
   (element_dim e = 6 \<and> shape (elements m) = es @ [6] \<longrightarrow>
      (\<exists>t. orientate_element_indices e m = Inr t \<and> shape t = es @ [6] \<and>
         (\<forall>b j. j < 6 \<longrightarrow>
            get t (b @ [j]) = get (elements m) (b @ [[0, 5, 1, 3, 2, 4] ! j])))) \<and>
   (element_dim e \<noteq> 3 \<and> element_dim e \<noteq> 6 \<longrightarrow>
      orientate_element_indices e m = Inl NotImplementedError)"
  using orientate_six [of e m es] by (simp add: orientate_element_indices_def)

theorem orientate_element_indices_cases_witness:
  "element_dim p1_element = 3 \<and>
   orientate_element_indices p1_element unit_mesh = Inr (elements unit_mesh) \<and>
   element_dim p2_element = 6 \<and> shape (elements p2_mesh) = [1] @ [6] \<and>
   (\<exists>t. orientate_element_indices p2_element p2_mesh = Inr t \<and> shape t = [1] @ [6] \<and>
      map (\<lambda>j. get t ([0] @ [j])) [0, 1, 2, 3, 4, 5] = [0, 5, 1, 3, 2, 4]) \<and>
   element_dim (p1_element\<lparr>element_dim := 4\<rparr>) \<noteq> 3 \<and>
   element_dim (p1_element\<lparr>element_dim := 4\<rparr>) \<noteq> 6 \<and>
   orientate_element_indices (p1_element\<lparr>element_dim := 4\<rparr>) unit_mesh
     = Inl NotImplementedError"
proof -
  have d1: "element_dim p1_element = 3" by (simp add: p1_element_def)
  have d2: "element_dim p2_element = 6" by (simp add: p2_element_def)
  have el: "shape (elements p2_mesh) = [1] @ [6]" by (simp add: p2_mesh_def of_list2_def)
  have d4: "element_dim (p1_element\<lparr>element_dim := 4\<rparr>) \<noteq> 3"
           "element_dim (p1_element\<lparr>element_dim := 4\<rparr>) \<noteq> 6"
    by simp_all
  have a: "orientate_element_indices p1_element unit_mesh = Inr (elements unit_mesh)"
    using orientate_element_indices_cases [of p1_element unit_mesh "[]"] d1 by blast
  from orientate_element_indices_cases [of p2_element p2_mesh "[1]"] d2 el
  obtain t where
    t: "orientate_element_indices p2_element p2_mesh = Inr t" "shape t = [1] @ [6]"
       "\<And>b j. j < 6 \<Longrightarrow> get t (b @ [j]) = get (elements p2_mesh) (b @ [[0, 5, 1, 3, 2, 4] ! j])"
    by blast
  have row: "map (\<lambda>j. get t ([0] @ [j])) [0, 1, 2, 3, 4, 5] = [0, 5, 1, 3, 2, 4]"
    using t(3) [of 0 "[0]"] t(3) [of 1 "[0]"] t(3) [of 2 "[0]"] t(3) [of 3 "[0]"]
          t(3) [of 4 "[0]"] t(3) [of 5 "[0]"]
    by (simp add: p2_mesh_def of_list2_def)
  have c: "orientate_element_indices (p1_element\<lparr>element_dim := 4\<rparr>) unit_mesh
             = Inl NotImplementedError"
    using orientate_element_indices_cases [of "p1_element\<lparr>element_dim := 4\<rparr>" unit_mesh "[]"] d4
    by blast
  have ex: "\<exists>t. orientate_element_indices p2_element p2_mesh = Inr t \<and> shape t = [1] @ [6] \<and>
              map (\<lambda>j. get t ([0] @ [j])) [0, 1, 2, 3, 4, 5] = [0, 5, 1, 3, 2, 4]"
    using t(1,2) row by (intro exI [of _ t] conjI)
  from d1 a d2 el ex d4 c show ?thesis
    by - (intro conjI; assumption)
qed

end
